theory Spec2Isabelle
  imports Main
begin

section \<open>The preserve-blank-lines transformer of ts-transformers\<close>

text \<open>
  A shallow embedding of \<^verbatim>\<open>packages/ts-transformers/src/preserve-blank-lines.ts\<close>.
  Source text is a list of characters, one per UTF-16 code unit of the JavaScript string.
  The only character the code compares with is the line feed, which is a single code unit
  and never half of a surrogate pair, so iterating code units or code points counts the
  same line feeds; everything else the code does with the text is cutting it by offset.
  (A HOL character is a byte, so a text with code units beyond that range has no
  counterpart here; no property below depends on which characters a text has besides
  its line feeds.) Offsets into the text are JavaScript numbers holding integers and are
  modelled as \<^typ>\<open>int\<close>.

  The functions of the TypeScript library that the transformer calls are modelled by
  what their documentation says they do: \<^verbatim>\<open>getFullStart\<close>, \<^verbatim>\<open>getStart\<close>,
  \<^verbatim>\<open>getEnd\<close>, \<^verbatim>\<open>setTextRange\<close>, \<^verbatim>\<open>addSyntheticLeadingComment\<close>
  and the walk of \<^verbatim>\<open>visitEachChild\<close>; \<^verbatim>\<open>getLeadingCommentRanges\<close> is a
  parameter.
\<close>

subsection \<open>The placeholder constant\<close>

definition BLANK_LINE_PLACEHOLDER_COMMENT :: string where
  "BLANK_LINE_PLACEHOLDER_COMMENT =
     ''__BLANK_LINE_PLACEHOLDER_G1JVXUEBNCL6YN5NFE13MD1PT3H9OIHB__''"

text \<open>Character classes used to describe the shape of the constant.\<close>

definition isUpperAlnum :: "char \<Rightarrow> bool" where
  "isUpperAlnum c = (c \<in> set ''ABCDEFGHIJKLMNOPQRSTUVWXYZ0123456789'')"

subsection \<open>Counting blank lines\<close>

text \<open>
  \<^verbatim>\<open>countBlankLines\<close>: the loop over the characters of the string increments
  \<^verbatim>\<open>newLines\<close> at every line feed; the result is \<^verbatim>\<open>Math.max(0, newLines - 1)\<close>.
\<close>

fun countNewLines :: "string \<Rightarrow> int \<Rightarrow> int" where
  "countNewLines [] newLines = newLines"
| "countNewLines (char # str) newLines =
     countNewLines str (if char = CHR 0x0A then newLines + 1 else newLines)"

definition countBlankLines :: "string \<Rightarrow> int" where
  "countBlankLines str = max 0 (countNewLines str 0 - 1)"

text \<open>
  A text with LF line ends rewritten to CRLF line ends: every line feed gets a carriage
  return in front. Used only to state that line-end style does not change the count.
\<close>

fun toCRLF :: "string \<Rightarrow> string" where
  "toCRLF [] = []"
| "toCRLF (c # cs) = (if c = CHR 0x0A then CHR 0x0D # c # toCRLF cs else c # toCRLF cs)"

subsection \<open>Strings of the host language\<close>

text \<open>
  \<^verbatim>\<open>String.prototype.slice(start, end)\<close> on integer arguments: a negative index counts
  from the end of the string, both indices are clamped to the string, and an empty string
  results when the start is not before the end.
\<close>

definition slice :: "string \<Rightarrow> int \<Rightarrow> int \<Rightarrow> string" where
  "slice str start endIndex =
     (let len = int (length str);
          from = (if start < 0 then max (len + start) 0 else min start len);
          to = (if endIndex < 0 then max (len + endIndex) 0 else min endIndex len)
      in if from \<ge> to then [] else take (nat (to - from)) (drop (nat from) str))"

text \<open>
  A template literal renders an integer in decimal, with a minus sign when it is negative
  (offsets are far below the size from which JavaScript prints a number with an exponent).
\<close>

definition digitChar :: "nat \<Rightarrow> char" where
  "digitChar d = char_of (48 + d)"

function natToString :: "nat \<Rightarrow> string" where
  "natToString n =
     (if n < 10 then [digitChar n] else natToString (n div 10) @ [digitChar (n mod 10)])"
  by pat_completeness auto
termination
  by (relation "measure (\<lambda>n. n)") auto

declare natToString.simps [simp del]

definition numberToString :: "int \<Rightarrow> string" where
  "numberToString i =
     (if i < 0 then CHR ''-'' # natToString (nat (- i)) else natToString (nat i))"

subsection \<open>Syntax tree nodes and comments\<close>

text \<open>
  The two comment kinds of \<^verbatim>\<open>ts.SyntaxKind\<close> that a comment range can have.
\<close>

datatype SyntaxKind = SingleLineCommentTrivia | MultiLineCommentTrivia

text \<open>
  \<^verbatim>\<open>ts.CommentRange\<close>: the offsets of a comment of the source text, its kind, and
  whether a line break follows it. The transformer hands the flag on as it is.
\<close>

record CommentRange =
  c_pos :: int
  c_end :: int
  c_kind :: SyntaxKind
  hasTrailingNewLine :: bool

text \<open>
  A synthetic comment, as \<^verbatim>\<open>ts.addSyntheticLeadingComment\<close> stores it on a node.
\<close>

record SynthesizedComment =
  s_kind :: SyntaxKind
  s_text :: string
  s_hasTrailingNewLine :: bool

text \<open>
  What the transformer reads and writes of a \<^verbatim>\<open>ts.Node\<close>: its identity (the code
  compares nodes by reference; different nodes and tokens of a file have different
  identities), whether it is a source file, its text range
  (\<open>n_pos\<close> is the full start, trivia included, \<open>n_end\<close> the end), the start of its own
  content as \<^verbatim>\<open>getStart()\<close> reports it, and the synthetic leading comments attached
  to it so far. \<^verbatim>\<open>getStart()\<close> skips the trivia that follows the full start, so it
  is the same before and after the node's range is moved up to it.
\<close>

record Node =
  ident :: nat
  isSourceFile :: bool
  n_pos :: int
  n_start :: int
  n_end :: int
  leadingComments :: "SynthesizedComment list"

definition getFullStart :: "Node \<Rightarrow> int" where
  "getFullStart node = n_pos node"

definition getStart :: "Node \<Rightarrow> int" where
  "getStart node = n_start node"

definition getEnd :: "Node \<Rightarrow> int" where
  "getEnd node = n_end node"

text \<open>\<^verbatim>\<open>ts.setTextRange(node, {pos, end})\<close> overwrites the node's range.\<close>

definition setTextRange :: "Node \<Rightarrow> int \<Rightarrow> int \<Rightarrow> Node" where
  "setTextRange node p e = node\<lparr>n_pos := p, n_end := e\<rparr>"

text \<open>
  \<^verbatim>\<open>ts.addSyntheticLeadingComment(node, kind, text, hasTrailingNewLine)\<close> appends one
  comment to the node's synthetic leading comments.
\<close>

definition addSyntheticLeadingComment ::
  "Node \<Rightarrow> SyntaxKind \<Rightarrow> string \<Rightarrow> bool \<Rightarrow> Node" where
  "addSyntheticLeadingComment node kind txt nl =
     node\<lparr>leadingComments := leadingComments node @
       [\<lparr>s_kind = kind, s_text = txt, s_hasTrailingNewLine = nl\<rparr>]\<rparr>"

text \<open>\<^verbatim>\<open>deleteTriviaRange\<close>: the node's range is cut down to its own content.\<close>

definition deleteTriviaRange :: "Node \<Rightarrow> Node" where
  "deleteTriviaRange node = setTextRange node (getStart node) (getEnd node)"

text \<open>
  The syntax tree as \<^verbatim>\<open>ts.visitEachChild\<close> walks it: a node and its children in
  source order.
\<close>

datatype Tree = Tree Node "Tree list"

text \<open>
  \<^verbatim>\<open>ts.getLeadingCommentRanges(text, pos)\<close> belongs to the TypeScript library; the
  transformer is modelled for any such function. It answers \<^verbatim>\<open>undefined\<close>
  (\<open>None\<close>) or the comments that follow the position, in source order.
\<close>

type_synonym LeadingCommentRanges = "string \<Rightarrow> int \<Rightarrow> CommentRange list option"

subsection \<open>The per-file transformer\<close>

text \<open>
  \<^verbatim>\<open>class PreserveBlankLinesTransformer\<close>: the text of the file, the identity of the
  first child (\<open>None\<close> when the file has no statement and the lookup gives
  \<^verbatim>\<open>undefined\<close>), and the two sets of trivia range keys.
\<close>

record Transformer =
  sourceFileText :: string
  firstChild :: "nat option"
  handledTriviaRanges :: "string set"
  deletedTriviaRanges :: "string set"

definition newTransformer :: "string \<Rightarrow> nat option \<Rightarrow> Transformer" where
  "newTransformer txt fc =
     \<lparr>sourceFileText = txt, firstChild = fc,
      handledTriviaRanges = {}, deletedTriviaRanges = {}\<rparr>"

text \<open>The key of a node's trivia range: full start, a colon, content start.\<close>

definition triviaRangeKey :: "Node \<Rightarrow> string" where
  "triviaRangeKey node =
     numberToString (getFullStart node) @ '':'' @ numberToString (getStart node)"

text \<open>
  The entries of \<^verbatim>\<open>newComments\<close>: the symbol \<^verbatim>\<open>BLANK_LINE\<close> or a comment of
  the source.
\<close>

datatype NewComment = BLANK_LINE | Existing CommentRange

text \<open>The local variables of \<^verbatim>\<open>addComments\<close> that its loops update.\<close>

record Scan =
  newComments :: "NewComment list"
  anyBlankLinesToAdd :: bool
  anyExistingCommentsToResynthesize :: bool
  previousRegionEnd :: int

text \<open>
  The loop \<^verbatim>\<open>for (let i = 0; i < countBlankLines(text); i++)\<close>, whose body pushes
  \<^verbatim>\<open>BLANK_LINE\<close> and sets the flag; \<open>n\<close> is the count, which the body does not
  change.
\<close>

function pushBlankLines :: "int \<Rightarrow> int \<Rightarrow> Scan \<Rightarrow> Scan" where
  "pushBlankLines i n sc =
     (if i < n
      then pushBlankLines (i + 1) n
             (sc\<lparr>newComments := newComments sc @ [BLANK_LINE], anyBlankLinesToAdd := True\<rparr>)
      else sc)"
  by pat_completeness auto
termination
  by (relation "measure (\<lambda>(i, n, sc). nat (n - i))") auto

declare pushBlankLines.simps [simp del]

text \<open>
  The loop over the existing comments. For a node other than the first child it pushes
  the blank lines of the text between the previous region end and the comment, then the
  comment; for every node it moves the previous region end to the end of the comment.
\<close>

fun eachExistingComment :: "Transformer \<Rightarrow> Node \<Rightarrow> CommentRange list \<Rightarrow> Scan \<Rightarrow> Scan" where
  "eachExistingComment t node [] sc = sc"
| "eachExistingComment t node (comment # rest) sc =
     (let sc1 =
        (if Some (ident node) \<noteq> firstChild t then
           (let leadingWhitespace =
                  slice (sourceFileText t) (previousRegionEnd sc) (c_pos comment);
                sc' = pushBlankLines 0 (countBlankLines leadingWhitespace) sc
            in sc'\<lparr>newComments := newComments sc' @ [Existing comment],
                   anyExistingCommentsToResynthesize := True\<rparr>)
         else sc)
      in eachExistingComment t node rest (sc1\<lparr>previousRegionEnd := c_end comment\<rparr>))"

text \<open>
  The remaining trivia after the last existing comment, or the whole trivia when there
  is no comment.
\<close>

definition remainingTrivia :: "Transformer \<Rightarrow> Node \<Rightarrow> Scan \<Rightarrow> Scan" where
  "remainingTrivia t node sc =
     (if previousRegionEnd sc < getStart node then
        (let postCommentText =
               slice (sourceFileText t) (previousRegionEnd sc) (getStart node)
         in pushBlankLines 0 (countBlankLines postCommentText) sc)
      else sc)"

text \<open>
  The scan of a node's leading trivia: the part of \<^verbatim>\<open>addComments\<close> from the
  declaration of \<^verbatim>\<open>newComments\<close> to the end of the remaining-trivia block.
\<close>

definition existingCommentsOf :: "LeadingCommentRanges \<Rightarrow> Transformer \<Rightarrow> Node \<Rightarrow> CommentRange list" where
  "existingCommentsOf getLeadingCommentRanges t node =
     (case getLeadingCommentRanges (sourceFileText t) (getFullStart node) of
        None \<Rightarrow> []
      | Some cs \<Rightarrow> cs)"

definition scanTrivia :: "LeadingCommentRanges \<Rightarrow> Transformer \<Rightarrow> Node \<Rightarrow> Scan" where
  "scanTrivia getLeadingCommentRanges t node =
     remainingTrivia t node
       (eachExistingComment t node (existingCommentsOf getLeadingCommentRanges t node)
          \<lparr>newComments = [], anyBlankLinesToAdd = False,
           anyExistingCommentsToResynthesize = False,
           previousRegionEnd = getFullStart node\<rparr>)"

text \<open>
  The body of the last loop of \<^verbatim>\<open>addComments\<close>: one synthetic leading comment per
  entry. A blank line becomes a single-line comment holding the placeholder, followed by a
  line break; a comment of the source keeps its kind and its line-break flag, and its text
  is cut out of the source between the delimiters.
\<close>

definition synthesize :: "Transformer \<Rightarrow> Node \<Rightarrow> NewComment \<Rightarrow> Node" where
  "synthesize t node comment =
     (case comment of
        BLANK_LINE \<Rightarrow>
          addSyntheticLeadingComment node SingleLineCommentTrivia
            BLANK_LINE_PLACEHOLDER_COMMENT True
      | Existing c \<Rightarrow>
          (let commentText =
                 slice (sourceFileText t) (c_pos c + 2)
                   (if c_kind c = MultiLineCommentTrivia then c_end c - 2 else c_end c)
           in addSyntheticLeadingComment node (c_kind c) commentText (hasTrailingNewLine c)))"

fun synthesizeAll :: "Transformer \<Rightarrow> NewComment list \<Rightarrow> Node \<Rightarrow> Node" where
  "synthesizeAll t [] node = node"
| "synthesizeAll t (comment # rest) node = synthesizeAll t rest (synthesize t node comment)"

text \<open>
  \<^verbatim>\<open>addComments\<close>. The method mutates the node and the two sets; the model returns
  the transformer and the node as they are afterwards.
\<close>

definition addComments ::
  "LeadingCommentRanges \<Rightarrow> Transformer \<Rightarrow> Node \<Rightarrow> Transformer \<times> Node" where
  "addComments getLeadingCommentRanges t node =
     (if isSourceFile node then (t, node)
      else
        let key = triviaRangeKey node in
        if key \<in> handledTriviaRanges t then
          (if key \<in> deletedTriviaRanges t then (t, deleteTriviaRange node) else (t, node))
        else
          let t1 = t\<lparr>handledTriviaRanges := insert key (handledTriviaRanges t)\<rparr>;
              sc = scanTrivia getLeadingCommentRanges t1 node
          in if \<not> anyBlankLinesToAdd sc then (t1, node)
             else
               let (t2, node1) =
                     (if anyExistingCommentsToResynthesize sc
                      then (t1\<lparr>deletedTriviaRanges := insert key (deletedTriviaRanges t1)\<rparr>,
                            deleteTriviaRange node)
                      else (t1, node))
               in (t2, synthesizeAll t2 (newComments sc) node1))"

subsection \<open>The walk over the file\<close>

text \<open>
  \<^verbatim>\<open>visit\<close> calls \<^verbatim>\<open>addComments\<close> on the node and then
  \<^verbatim>\<open>ts.visitEachChild\<close>, which visits the children from left to right.
\<close>

function visit :: "LeadingCommentRanges \<Rightarrow> Transformer \<Rightarrow> Tree \<Rightarrow> Transformer \<times> Tree"
  and visitEachChild ::
    "LeadingCommentRanges \<Rightarrow> Transformer \<Rightarrow> Tree list \<Rightarrow> Transformer \<times> Tree list" where
  "visit g t (Tree node children) =
     (let (t1, node') = addComments g t node;
          (t2, children') = visitEachChild g t1 children
      in (t2, Tree node' children'))"
| "visitEachChild g t [] = (t, [])"
| "visitEachChild g t (child # rest) =
     (let (t1, child') = visit g t child;
          (t2, rest') = visitEachChild g t1 rest
      in (t2, child' # rest'))"
  by pat_completeness auto
termination
  by (relation "measure (\<lambda>x. case x of
         Inl (g, t, tree) \<Rightarrow> size tree
       | Inr (g, t, trees) \<Rightarrow> size_list size trees)") auto

text \<open>
  A parsed file: its full text, its root (the source file node, with the tree that
  \<^verbatim>\<open>ts.visitEachChild\<close> walks below it), and the identity of the node that
  \<^verbatim>\<open>file.getChildAt(0).getChildAt(0)\<close> gives. That node is looked up in the child
  lists that the TypeScript library builds from the text, which hold tokens as well as
  the nodes of the walk: it is the first statement of the file when the text of the
  file starts with it, a token when the parser skipped one in front of the first
  statement, and \<^verbatim>\<open>undefined\<close> (\<open>None\<close>) when the list is empty. Like the
  leading comment ranges it is a given of the file, not computed from the tree of the
  walk.
\<close>

record SourceFile =
  fullText :: string
  root :: Tree
  firstChildNode :: "nat option"

definition preserveBlankLinesTransformer :: "LeadingCommentRanges \<Rightarrow> SourceFile \<Rightarrow> SourceFile" where
  "preserveBlankLinesTransformer g file =
     (let sourceFileText = fullText file in
      if sourceFileText = [] then file
      else
        let firstChild = firstChildNode file;
            transformer = newTransformer sourceFileText firstChild
        in file\<lparr>root := snd (visit g transformer (root file))\<rparr>)"

section \<open>Notions used to state the properties\<close>

subsection \<open>The specification's words\<close>

text \<open>
  The number of blank lines of a gap, as the specification defines it: the number of line
  feeds of the gap text, minus one, floored at zero.
\<close>

definition blankLinesIn :: "string \<Rightarrow> nat" where
  "blankLinesIn gap = nat (max 0 (int (count_list gap (CHR 0x0A)) - 1))"

text \<open>
  The gaps in front of the comments of a trivia region: the text between the previous
  region end (at first the full start of the node) and the start of the next comment.
\<close>

fun gapsBefore :: "string \<Rightarrow> int \<Rightarrow> CommentRange list \<Rightarrow> string list" where
  "gapsBefore src regionEnd [] = []"
| "gapsBefore src regionEnd (c # cs) =
     slice src regionEnd (c_pos c) # gapsBefore src (c_end c) cs"

text \<open>The end of the last comment, or the region end given when there is no comment.\<close>

fun regionEndAfter :: "int \<Rightarrow> CommentRange list \<Rightarrow> int" where
  "regionEndAfter regionEnd [] = regionEnd"
| "regionEndAfter regionEnd (c # cs) = regionEndAfter (c_end c) cs"

text \<open>
  The gap after the last comment: the text up to the content start of the node, empty
  when the content start is not beyond the end of the last comment.
\<close>

definition gapAfter :: "string \<Rightarrow> int \<Rightarrow> CommentRange list \<Rightarrow> int \<Rightarrow> string" where
  "gapAfter src regionEnd cs contentStart =
     (if regionEndAfter regionEnd cs < contentStart
      then slice src (regionEndAfter regionEnd cs) contentStart else [])"

text \<open>
  The annotation sequence of the gaps in front of the comments: for each comment, one
  run of blank-line markers as long as the blank lines of its gap, then the comment.
\<close>

fun interleave :: "string list \<Rightarrow> CommentRange list \<Rightarrow> NewComment list" where
  "interleave (gap # gaps) (c # cs) =
     replicate (blankLinesIn gap) BLANK_LINE @ Existing c # interleave gaps cs"
| "interleave gaps cs = []"

text \<open>
  A comment without its delimiters: the two leading characters go, and for a block
  comment the two trailing ones as well.
\<close>

definition stripDelimiters :: "SyntaxKind \<Rightarrow> string \<Rightarrow> string" where
  "stripDelimiters kind body =
     (if kind = MultiLineCommentTrivia
      then take (length (drop 2 body) - 2) (drop 2 body)
      else drop 2 body)"

text \<open>Two nodes have the same trivia region: the same full start and content start.\<close>

definition sameRegion :: "Node \<Rightarrow> Node \<Rightarrow> bool" where
  "sameRegion m n = (getFullStart m = getFullStart n \<and> getStart m = getStart n)"

text \<open>The trivia span of a node is cleared when its range starts at its own content.\<close>

definition triviaCleared :: "Node \<Rightarrow> bool" where
  "triviaCleared node = (getFullStart node = getStart node)"

text \<open>The synthetic comment that stands for one blank line.\<close>

definition blankLineComment :: SynthesizedComment where
  "blankLineComment =
     \<lparr>s_kind = SingleLineCommentTrivia, s_text = BLANK_LINE_PLACEHOLDER_COMMENT,
      s_hasTrailingNewLine = True\<rparr>"

fun isExisting :: "NewComment \<Rightarrow> bool" where
  "isExisting BLANK_LINE = False"
| "isExisting (Existing c) = True"

subsection \<open>The walk as a traversal of a list\<close>

text \<open>
  The nodes of a tree in the order in which the walk reaches them, and the walk over such
  a list: \<^verbatim>\<open>addComments\<close> on each node in turn, the transformer handed on.
\<close>

fun preorder :: "Tree \<Rightarrow> Node list" where
  "preorder (Tree node children) = node # concat (map preorder children)"

fun visitNodes ::
  "LeadingCommentRanges \<Rightarrow> Transformer \<Rightarrow> Node list \<Rightarrow> Transformer \<times> Node list" where
  "visitNodes g t [] = (t, [])"
| "visitNodes g t (node # rest) =
     (fst (visitNodes g (fst (addComments g t node)) rest),
      snd (addComments g t node) # snd (visitNodes g (fst (addComments g t node)) rest))"

subsection \<open>Invariants\<close>

text \<open>The two flags of a scan say what its sequence holds.\<close>

definition flagsAgree :: "Scan \<Rightarrow> bool" where
  "flagsAgree sc =
     ((anyBlankLinesToAdd sc = (BLANK_LINE \<in> set (newComments sc)))
      \<and> (anyExistingCommentsToResynthesize sc = list_ex isExisting (newComments sc)))"

text \<open>A key is recorded as deleted only for nodes that have leading comments.\<close>

definition deletedHaveComments :: "LeadingCommentRanges \<Rightarrow> Transformer \<Rightarrow> bool" where
  "deletedHaveComments g t =
     (\<forall>node. triviaRangeKey node \<in> deletedTriviaRanges t
        \<longrightarrow> existingCommentsOf g t node \<noteq> [])"

text \<open>Reading a decimal numeral back, the inverse of \<open>natToString\<close>.\<close>

definition stringToNat :: "string \<Rightarrow> nat" where
  "stringToNat s = foldl (\<lambda>a c. 10 * a + (of_char c - 48)) 0 s"

section \<open>Sample inputs\<close>

definition mkNode :: "nat \<Rightarrow> bool \<Rightarrow> int \<Rightarrow> int \<Rightarrow> int \<Rightarrow> Node" where
  "mkNode i isSource p s e =
     \<lparr>ident = i, isSourceFile = isSource, n_pos = p, n_start = s, n_end = e,
      leadingComments = []\<rparr>"

definition singleLine :: "int \<Rightarrow> int \<Rightarrow> CommentRange" where
  "singleLine p e =
     \<lparr>c_pos = p, c_end = e, c_kind = SingleLineCommentTrivia, hasTrailingNewLine = True\<rparr>"

text \<open>
  Two statements, the second behind a blank line and a comment. The second statement
  (node 2) and its first descendant (node 3) have the same trivia range, 1 to 7.
\<close>

definition sharedText :: string where
  "sharedText = ''x\<newline>\<newline>//c\<newline>y''"

definition sharedComments :: LeadingCommentRanges where
  "sharedComments src p = (if p = 1 then Some [singleLine 3 6] else None)"

definition sharedTree :: Tree where
  "sharedTree =
     Tree (mkNode 0 True 0 0 8)
       [Tree (mkNode 1 False 0 0 1) [],
        Tree (mkNode 2 False 1 7 8) [Tree (mkNode 3 False 1 7 8) []]]"

text \<open>A file that starts with a blank line, a comment and a statement.\<close>

definition leadText :: string where
  "leadText = ''\<newline>\<newline>//c\<newline>x''"

definition leadComments :: LeadingCommentRanges where
  "leadComments src p = (if p = 0 then Some [singleLine 2 5] else None)"

text \<open>
  Files that start with two comments, two blank lines between them; in the second file
  two blank lines follow the second comment as well.
\<close>

definition betweenText :: string where
  "betweenText = ''//a\<newline>\<newline>\<newline>//b\<newline>x''"

definition trailText :: string where
  "trailText = ''//a\<newline>\<newline>\<newline>//b\<newline>\<newline>\<newline>x''"

definition twoComments :: LeadingCommentRanges where
  "twoComments src p = (if p = 0 then Some [singleLine 0 3, singleLine 6 9] else None)"

text \<open>A file without comments that starts with blank lines.\<close>

definition plainText :: string where
  "plainText = ''\<newline>\<newline>\<newline>x''"

definition noComments :: LeadingCommentRanges where
  "noComments src p = None"

text \<open>
  Files of these texts. In each the text starts with the first statement, which is
  node 1 and the node that the child lookup gives.
\<close>

definition trailFile :: SourceFile where
  "trailFile =
     \<lparr>fullText = trailText,
      root = Tree (mkNode 0 True 0 12 13) [Tree (mkNode 1 False 0 12 13) []],
      firstChildNode = Some 1\<rparr>"

definition plainFile :: SourceFile where
  "plainFile =
     \<lparr>fullText = plainText,
      root = Tree (mkNode 0 True 0 3 4) [Tree (mkNode 1 False 0 3 4) []],
      firstChildNode = Some 1\<rparr>"

definition sharedFile :: SourceFile where
  "sharedFile = \<lparr>fullText = sharedText, root = sharedTree, firstChildNode = Some 1\<rparr>"

text \<open>
  The file of the text with a leading blank line and comment: the source file, its
  first statement and the first descendant of that statement all have the trivia range
  0 to 6.
\<close>

definition leadFile :: SourceFile where
  "leadFile =
     \<lparr>fullText = leadText,
      root = Tree (mkNode 0 True 0 6 7)
               [Tree (mkNode 1 False 0 6 7) [Tree (mkNode 2 False 0 6 7) []]],
      firstChildNode = Some 1\<rparr>"

text \<open>
  A file whose text starts with a token that the parser skips. The child lookup gives
  that token (identity 7), which is no node of the walk; the first statement is node 1
  with the trivia range 1 to 12, two comments in it and two blank lines between them.
\<close>

definition skippedText :: string where
  "skippedText = ''=\<newline>//a\<newline>\<newline>\<newline>//b\<newline>x;''"

definition skippedComments :: LeadingCommentRanges where
  "skippedComments src p = (if p = 1 then Some [singleLine 2 5, singleLine 8 11] else None)"

definition skippedFile :: SourceFile where
  "skippedFile =
     \<lparr>fullText = skippedText,
      root = Tree (mkNode 0 True 0 0 14) [Tree (mkNode 1 False 1 12 14) []],
      firstChildNode = Some 7\<rparr>"

text \<open>A block comment that spans two lines.\<close>

definition blockText :: string where
  "blockText = ''/* hello\<newline>world */''"

section \<open>Properties\<close>

subsection \<open>Counting line feeds\<close>

lemma countNewLines_acc:
  "countNewLines str n = n + int (count_list str (CHR 0x0A))"
  by (induction str arbitrary: n) simp_all

lemma count_list_filter_eq:
  "count_list (filter (\<lambda>c. c = x) s) x = count_list s x"
  by (induction s) simp_all

lemma count_list_toCRLF:
  "count_list (toCRLF s) (CHR 0x0A) = count_list s (CHR 0x0A)"
  by (induction s) simp_all

lemma countBlankLines_blankLinesIn: "countBlankLines s = int (blankLinesIn s)"
  by (simp add: countBlankLines_def blankLinesIn_def countNewLines_acc)

subsection \<open>Keys are one to one\<close>

lemma of_char_digitChar: "d < 10 \<Longrightarrow> (of_char (digitChar d) :: nat) = 48 + d"
  by (simp add: digitChar_def)

lemma digitChar_not_colon: "d < 10 \<Longrightarrow> digitChar d \<noteq> CHR '':''"
proof
  assume "d < 10" "digitChar d = CHR '':''"
  then have "(of_char (digitChar d) :: nat) = of_char (CHR '':'')" by simp
  with \<open>d < 10\<close> show False by (simp add: of_char_digitChar)
qed

lemma digitChar_not_minus: "d < 10 \<Longrightarrow> digitChar d \<noteq> CHR ''-''"
proof
  assume "d < 10" "digitChar d = CHR ''-''"
  then have "(of_char (digitChar d) :: nat) = of_char (CHR ''-'')" by simp
  with \<open>d < 10\<close> show False by (simp add: of_char_digitChar)
qed

lemma stringToNat_natToString: "stringToNat (natToString n) = n"
proof (induction n rule: natToString.induct)
  case (1 n)
  show ?case
  proof (cases "n < 10")
    case True
    then show ?thesis
      by (subst natToString.simps) (simp add: stringToNat_def of_char_digitChar)
  next
    case False
    with 1 have "stringToNat (natToString (n div 10)) = n div 10" by simp
    with False show ?thesis
      by (subst natToString.simps) (simp add: stringToNat_def of_char_digitChar)
  qed
qed

lemma natToString_inj: "natToString m = natToString n \<Longrightarrow> m = n"
  by (metis stringToNat_natToString)

lemma natToString_digits: "c \<in> set (natToString n) \<Longrightarrow> \<exists>d<10. c = digitChar d"
proof (induction n rule: natToString.induct)
  case (1 n)
  show ?case
  proof (cases "n < 10")
    case True
    with 1(2) show ?thesis by (subst (asm) natToString.simps) auto
  next
    case False
    with 1(2) have "c \<in> set (natToString (n div 10)) \<or> c = digitChar (n mod 10)"
      by (subst (asm) natToString.simps) auto
    with 1(1) False show ?thesis
      by (metis mod_less_divisor zero_less_numeral)
  qed
qed

lemma natToString_nonempty: "natToString n \<noteq> []"
  by (subst natToString.simps) simp

lemma natToString_hd_not_minus: "hd (natToString n) \<noteq> CHR ''-''"
  by (metis natToString_nonempty natToString_digits digitChar_not_minus hd_in_set)

lemma numberToString_inj: "numberToString i = numberToString j \<Longrightarrow> i = j"
proof -
  assume eq: "numberToString i = numberToString j"
  have neg: "hd (numberToString k) = CHR ''-'' \<longleftrightarrow> k < 0" for k
    by (simp add: numberToString_def natToString_hd_not_minus)
  from eq have sgn: "i < 0 \<longleftrightarrow> j < 0" by (metis neg)
  show "i = j"
  proof (cases "i < 0")
    case True
    with sgn eq have "natToString (nat (- i)) = natToString (nat (- j))"
      by (simp add: numberToString_def)
    then have "nat (- i) = nat (- j)" by (rule natToString_inj)
    with True sgn show ?thesis by simp
  next
    case False
    with sgn eq have "natToString (nat i) = natToString (nat j)"
      by (simp add: numberToString_def)
    then have "nat i = nat j" by (rule natToString_inj)
    with False sgn show ?thesis by simp
  qed
qed

lemma numberToString_no_colon: "CHR '':'' \<notin> set (numberToString i)"
proof -
  have "CHR '':'' \<notin> set (natToString n)" for n
    by (metis natToString_digits digitChar_not_colon)
  then show ?thesis by (simp add: numberToString_def)
qed

lemma split_at_separator:
  assumes "x \<notin> set xs" "x \<notin> set xs'" "xs @ x # ys = xs' @ x # ys'"
  shows "xs = xs' \<and> ys = ys'"
proof -
  have "takeWhile (\<lambda>c. c \<noteq> x) (xs @ x # ys) = xs" "takeWhile (\<lambda>c. c \<noteq> x) (xs' @ x # ys') = xs'"
    using assms(1,2) by (auto simp: takeWhile_tail)
  with assms(3) have "xs = xs'" by simp
  with assms(3) show ?thesis by simp
qed

lemma triviaRangeKey_inj:
  "triviaRangeKey m = triviaRangeKey n \<longleftrightarrow>
     getFullStart m = getFullStart n \<and> getStart m = getStart n"
proof
  assume "triviaRangeKey m = triviaRangeKey n"
  then have "numberToString (getFullStart m) = numberToString (getFullStart n)
           \<and> numberToString (getStart m) = numberToString (getStart n)"
    unfolding triviaRangeKey_def
    using split_at_separator [OF numberToString_no_colon numberToString_no_colon] by simp
  then show "getFullStart m = getFullStart n \<and> getStart m = getStart n"
    by (simp add: numberToString_inj)
next
  assume "getFullStart m = getFullStart n \<and> getStart m = getStart n"
  then show "triviaRangeKey m = triviaRangeKey n" by (simp add: triviaRangeKey_def)
qed

subsection \<open>Slices\<close>

lemma slice_in_range:
  "0 \<le> p \<Longrightarrow> 0 \<le> e \<Longrightarrow> e \<le> int (length s) \<Longrightarrow>
   slice s p e = take (nat (e - p)) (drop (nat p) s)"
  by (auto simp: slice_def Let_def min_def)

lemma slice_strip_single:
  assumes "0 \<le> p" "p + 2 \<le> e" "e \<le> int (length s)"
  shows "slice s (p + 2) e = drop 2 (slice s p e)"
proof -
  have "nat (p + 2) = 2 + nat p" "nat (e - (p + 2)) = nat (e - p) - 2"
    using assms by arith+
  with assms show ?thesis
    by (simp add: slice_in_range drop_take add.commute)
qed

lemma slice_strip_multi:
  assumes "0 \<le> p" "p + 2 \<le> e" "e \<le> int (length s)"
  shows "slice s (p + 2) (e - 2) =
           take (length (drop 2 (slice s p e)) - 2) (drop 2 (slice s p e))"
proof -
  define a n where "a = nat p" and "n = nat (e - p)"
  have bound: "a + n \<le> length s"
    using assms unfolding a_def n_def by arith
  have "slice s p e = take n (drop a s)"
    using assms by (simp add: slice_in_range a_def n_def)
  then have body: "drop 2 (slice s p e) = take (n - 2) (drop (a + 2) s)"
    by (simp add: drop_take add.commute)
  have "length (take (n - 2) (drop (a + 2) s)) = n - 2"
    using bound by simp
  with body have rhs: "take (length (drop 2 (slice s p e)) - 2) (drop 2 (slice s p e)) =
      take (n - 2 - 2) (drop (a + 2) s)"
    by (simp add: min_def)
  have "nat (p + 2) = a + 2" "nat (e - 2 - (p + 2)) = n - 2 - 2"
    using assms unfolding a_def n_def by arith+
  then have "slice s (p + 2) (e - 2) = take (n - 2 - 2) (drop (a + 2) s)"
    using assms by (simp add: slice_in_range)
  with rhs show ?thesis by simp
qed

subsection \<open>The scan of the leading trivia\<close>

lemma pushBlankLines_eq:
  "pushBlankLines i n sc =
     (if i < n
      then sc\<lparr>newComments := newComments sc @ replicate (nat (n - i)) BLANK_LINE,
              anyBlankLinesToAdd := True\<rparr>
      else sc)"
proof (induction i n sc rule: pushBlankLines.induct)
  case (1 i n sc)
  show ?case
  proof (cases "i < n")
    case True
    have "nat (n - i) = Suc (nat (n - (i + 1)))"
      using True by arith
    then have rep: "replicate (nat (n - i)) BLANK_LINE =
        BLANK_LINE # replicate (nat (n - (i + 1))) BLANK_LINE"
      by simp
    show ?thesis
      using True 1 [OF True] rep
      by (subst pushBlankLines.simps) (cases "i + 1 < n"; simp)
  next
    case False
    then show ?thesis by (subst pushBlankLines.simps) simp
  qed
qed

lemma pushBlankLines_count:
  "pushBlankLines 0 (countBlankLines s) sc =
     sc\<lparr>newComments := newComments sc @ replicate (blankLinesIn s) BLANK_LINE,
        anyBlankLinesToAdd := (anyBlankLinesToAdd sc \<or> 0 < blankLinesIn s)\<rparr>"
  by (simp add: pushBlankLines_eq countBlankLines_blankLinesIn)

lemma eachExistingComment_firstChild:
  "Some (ident node) = firstChild t \<Longrightarrow>
   eachExistingComment t node cs sc =
     sc\<lparr>previousRegionEnd := regionEndAfter (previousRegionEnd sc) cs\<rparr>"
  by (induction cs arbitrary: sc) simp_all

lemma eachExistingComment_other:
  "Some (ident node) \<noteq> firstChild t \<Longrightarrow>
   eachExistingComment t node cs sc =
     sc\<lparr>newComments := newComments sc @
            interleave (gapsBefore (sourceFileText t) (previousRegionEnd sc) cs) cs,
        anyBlankLinesToAdd :=
          (anyBlankLinesToAdd sc \<or>
           list_ex (\<lambda>gap. 0 < blankLinesIn gap)
             (gapsBefore (sourceFileText t) (previousRegionEnd sc) cs)),
        anyExistingCommentsToResynthesize :=
          (anyExistingCommentsToResynthesize sc \<or> cs \<noteq> []),
        previousRegionEnd := regionEndAfter (previousRegionEnd sc) cs\<rparr>"
proof (induction cs arbitrary: sc)
  case Nil
  then show ?case by simp
next
  case (Cons c cs)
  show ?case
    using Cons.prems
    by (simp add: Cons.IH [OF Cons.prems] pushBlankLines_count Let_def disj_ac)
qed

lemma flagsAgree_pushBlankLines:
  "flagsAgree sc \<Longrightarrow> flagsAgree (pushBlankLines 0 (countBlankLines s) sc)"
  by (auto simp: flagsAgree_def pushBlankLines_count list_ex_iff)

lemma flagsAgree_eachExistingComment:
  "flagsAgree sc \<Longrightarrow> flagsAgree (eachExistingComment t node cs sc)"
proof (induction cs arbitrary: sc)
  case Nil
  then show ?case by simp
next
  case (Cons c cs)
  have step: "flagsAgree (sc'\<lparr>newComments := newComments sc' @ [Existing c],
                 anyExistingCommentsToResynthesize := True\<rparr>)"
    if "flagsAgree sc'" for sc'
    using that by (auto simp: flagsAgree_def list_ex_iff)
  have move: "flagsAgree (sc'\<lparr>previousRegionEnd := e\<rparr>)" if "flagsAgree sc'" for sc' e
    using that by (simp add: flagsAgree_def)
  show ?case
    using Cons.prems
    by (auto simp: Let_def intro!: Cons.IH move step flagsAgree_pushBlankLines)
qed

lemma flagsAgree_scanTrivia: "flagsAgree (scanTrivia g t node)"
proof -
  have "flagsAgree \<lparr>newComments = [], anyBlankLinesToAdd = False,
           anyExistingCommentsToResynthesize = False,
           previousRegionEnd = getFullStart node\<rparr>"
    by (simp add: flagsAgree_def)
  then show ?thesis
    unfolding scanTrivia_def remainingTrivia_def
    by (auto simp: Let_def intro!: flagsAgree_pushBlankLines flagsAgree_eachExistingComment)
qed

lemma newComments_scanTrivia:
  "newComments (scanTrivia g t node) =
     (if Some (ident node) \<noteq> firstChild t
      then interleave
             (gapsBefore (sourceFileText t) (getFullStart node) (existingCommentsOf g t node))
             (existingCommentsOf g t node)
      else [])
     @ replicate
         (blankLinesIn (gapAfter (sourceFileText t) (getFullStart node)
            (existingCommentsOf g t node) (getStart node)))
         BLANK_LINE"
  by (cases "Some (ident node) = firstChild t")
     (simp_all add: scanTrivia_def remainingTrivia_def gapAfter_def Let_def
        eachExistingComment_firstChild eachExistingComment_other pushBlankLines_count
        blankLinesIn_def)

lemma eachExistingComment_cong:
  "sourceFileText t' = sourceFileText t \<Longrightarrow> firstChild t' = firstChild t \<Longrightarrow>
   eachExistingComment t' node cs sc = eachExistingComment t node cs sc"
  by (induction cs arbitrary: sc) simp_all

lemma scanTrivia_cong:
  "sourceFileText t' = sourceFileText t \<Longrightarrow> firstChild t' = firstChild t \<Longrightarrow>
   scanTrivia g t' node = scanTrivia g t node"
proof -
  assume eq: "sourceFileText t' = sourceFileText t" "firstChild t' = firstChild t"
  have "eachExistingComment t' node cs sc = eachExistingComment t node cs sc" for cs sc
    using eq by (rule eachExistingComment_cong)
  with eq(1) show ?thesis
    by (simp add: scanTrivia_def remainingTrivia_def existingCommentsOf_def)
qed

lemma existingCommentsOf_cong:
  "sourceFileText t' = sourceFileText t \<Longrightarrow> getFullStart m = getFullStart n \<Longrightarrow>
   existingCommentsOf g t' m = existingCommentsOf g t n"
  by (simp add: existingCommentsOf_def)

lemma anyExisting_scanTrivia:
  "anyExistingCommentsToResynthesize (scanTrivia g t node) =
     (Some (ident node) \<noteq> firstChild t \<and> existingCommentsOf g t node \<noteq> [])"
  by (cases "Some (ident node) = firstChild t")
     (simp_all add: scanTrivia_def remainingTrivia_def Let_def pushBlankLines_count
        eachExistingComment_firstChild eachExistingComment_other)

lemma anyBlank_scanTrivia:
  "anyBlankLinesToAdd (scanTrivia g t node) = (BLANK_LINE \<in> set (newComments (scanTrivia g t node)))"
  using flagsAgree_scanTrivia [of g t node] by (simp add: flagsAgree_def)

lemma existing_scanTrivia:
  "anyExistingCommentsToResynthesize (scanTrivia g t node) =
     list_ex isExisting (newComments (scanTrivia g t node))"
  using flagsAgree_scanTrivia [of g t node] by (simp add: flagsAgree_def)

lemma scanTrivia_nothing:
  assumes "existingCommentsOf g t node = []"
    "count_list (slice (sourceFileText t) (getFullStart node) (getStart node)) (CHR 0x0A) \<le> 1"
  shows "newComments (scanTrivia g t node) = []"
  using assms by (simp add: newComments_scanTrivia gapAfter_def blankLinesIn_def)

subsection \<open>One call of addComments\<close>

lemma synthesize_frame:
  "ident (synthesize t node c) = ident node"
  "isSourceFile (synthesize t node c) = isSourceFile node"
  "n_pos (synthesize t node c) = n_pos node"
  "n_start (synthesize t node c) = n_start node"
  "n_end (synthesize t node c) = n_end node"
  by (simp_all add: synthesize_def addSyntheticLeadingComment_def Let_def split: NewComment.splits)

lemma synthesizeAll_frame:
  "ident (synthesizeAll t cs node) = ident node"
  "isSourceFile (synthesizeAll t cs node) = isSourceFile node"
  "n_pos (synthesizeAll t cs node) = n_pos node"
  "n_start (synthesizeAll t cs node) = n_start node"
  "n_end (synthesizeAll t cs node) = n_end node"
  by (induction cs arbitrary: node) (simp_all add: synthesize_frame)

lemma synthesizeAll_cong:
  "sourceFileText t' = sourceFileText t \<Longrightarrow> synthesizeAll t' cs node = synthesizeAll t cs node"
  by (induction cs arbitrary: node) (simp_all add: synthesize_def split: NewComment.splits)

lemma synthesizeAll_blank_lines:
  "synthesizeAll t (replicate k BLANK_LINE) node =
     node\<lparr>leadingComments := leadingComments node @ replicate k blankLineComment\<rparr>"
proof (induction k arbitrary: node)
  case 0
  show ?case by simp
next
  case (Suc k)
  show ?case
    by (simp add: Suc synthesize_def addSyntheticLeadingComment_def blankLineComment_def
        replicate_app_Cons_same)
qed

lemma addComments_sourceFile:
  "isSourceFile node \<Longrightarrow> addComments g t node = (t, node)"
  by (simp add: addComments_def)

lemma addComments_handled:
  "\<not> isSourceFile node \<Longrightarrow> triviaRangeKey node \<in> handledTriviaRanges t \<Longrightarrow>
   addComments g t node =
     (t, if triviaRangeKey node \<in> deletedTriviaRanges t then deleteTriviaRange node else node)"
  by (simp add: addComments_def)

lemma addComments_fresh:
  "\<not> isSourceFile node \<Longrightarrow> triviaRangeKey node \<notin> handledTriviaRanges t \<Longrightarrow>
   addComments g t node =
     (let key = triviaRangeKey node;
          t1 = t\<lparr>handledTriviaRanges := insert key (handledTriviaRanges t)\<rparr>;
          sc = scanTrivia g t node
      in if \<not> anyBlankLinesToAdd sc then (t1, node)
         else if anyExistingCommentsToResynthesize sc
         then (t1\<lparr>deletedTriviaRanges := insert key (deletedTriviaRanges t)\<rparr>,
               synthesizeAll t (newComments sc) (deleteTriviaRange node))
         else (t1, synthesizeAll t (newComments sc) node))"
proof -
  assume fresh: "\<not> isSourceFile node" "triviaRangeKey node \<notin> handledTriviaRanges t"
  have scan: "scanTrivia g (t\<lparr>handledTriviaRanges := h\<rparr>) node = scanTrivia g t node" for h
    by (rule scanTrivia_cong) simp_all
  have syn1: "synthesizeAll (t\<lparr>handledTriviaRanges := h\<rparr>) cs n = synthesizeAll t cs n"
    for h cs n
    by (rule synthesizeAll_cong) simp
  have syn2: "synthesizeAll (t\<lparr>handledTriviaRanges := h, deletedTriviaRanges := d\<rparr>) cs n =
      synthesizeAll t cs n" for h d cs n
    by (rule synthesizeAll_cong) simp
  from fresh show ?thesis
    by (simp add: addComments_def Let_def scan syn1 syn2)
qed

lemma addComments_text:
  "sourceFileText (fst (addComments g t node)) = sourceFileText t"
  "firstChild (fst (addComments g t node)) = firstChild t"
  by (simp_all add: addComments_def Let_def)

lemma addComments_handledTriviaRanges:
  "handledTriviaRanges (fst (addComments g t node)) =
     (if isSourceFile node then handledTriviaRanges t
      else insert (triviaRangeKey node) (handledTriviaRanges t))"
  by (auto simp: addComments_def Let_def)

lemma addComments_deletedTriviaRanges:
  "deletedTriviaRanges (fst (addComments g t node)) =
     (if \<not> isSourceFile node \<and> triviaRangeKey node \<notin> handledTriviaRanges t
         \<and> anyBlankLinesToAdd (scanTrivia g t node)
         \<and> anyExistingCommentsToResynthesize (scanTrivia g t node)
      then insert (triviaRangeKey node) (deletedTriviaRanges t)
      else deletedTriviaRanges t)"
  by (cases "isSourceFile node"; cases "triviaRangeKey node \<in> handledTriviaRanges t")
     (simp_all add: addComments_sourceFile addComments_handled addComments_fresh Let_def)

lemma addComments_range:
  assumes "\<not> isSourceFile node" "deletedTriviaRanges t \<subseteq> handledTriviaRanges t"
  shows "n_pos (snd (addComments g t node)) =
           (if triviaRangeKey node \<in> deletedTriviaRanges (fst (addComments g t node))
            then n_start node else n_pos node)"
    and "n_start (snd (addComments g t node)) = n_start node"
proof -
  show "n_start (snd (addComments g t node)) = n_start node"
    using assms(1)
    by (cases "triviaRangeKey node \<in> handledTriviaRanges t")
       (simp_all add: addComments_handled addComments_fresh Let_def synthesizeAll_frame
          deleteTriviaRange_def setTextRange_def)
  show "n_pos (snd (addComments g t node)) =
           (if triviaRangeKey node \<in> deletedTriviaRanges (fst (addComments g t node))
            then n_start node else n_pos node)"
  proof (cases "triviaRangeKey node \<in> handledTriviaRanges t")
    case True
    with assms(1) show ?thesis
      by (simp add: addComments_handled deleteTriviaRange_def setTextRange_def getStart_def)
  next
    case False
    with assms(2) have "triviaRangeKey node \<notin> deletedTriviaRanges t" by blast
    with False assms(1) show ?thesis
      by (simp add: addComments_fresh Let_def synthesizeAll_frame
          deleteTriviaRange_def setTextRange_def getStart_def)
  qed
qed

lemma handled_mono_addComments:
  "K \<in> handledTriviaRanges t \<Longrightarrow> K \<in> handledTriviaRanges (fst (addComments g t node))"
  by (simp add: addComments_handledTriviaRanges)

lemma frozen_addComments:
  "K \<in> handledTriviaRanges t \<Longrightarrow>
   K \<in> deletedTriviaRanges (fst (addComments g t node)) \<longleftrightarrow> K \<in> deletedTriviaRanges t"
  by (auto simp: addComments_deletedTriviaRanges)

lemma subset_addComments:
  "deletedTriviaRanges t \<subseteq> handledTriviaRanges t \<Longrightarrow>
   deletedTriviaRanges (fst (addComments g t node))
     \<subseteq> handledTriviaRanges (fst (addComments g t node))"
  by (auto simp: addComments_deletedTriviaRanges addComments_handledTriviaRanges)

lemma deletedHaveComments_addComments:
  assumes "deletedHaveComments g t"
  shows "deletedHaveComments g (fst (addComments g t node))"
  unfolding deletedHaveComments_def
proof (intro allI impI)
  fix m
  assume m: "triviaRangeKey m \<in> deletedTriviaRanges (fst (addComments g t node))"
  have same: "existingCommentsOf g (fst (addComments g t node)) m = existingCommentsOf g t m"
    by (rule existingCommentsOf_cong) (simp_all add: addComments_text)
  show "existingCommentsOf g (fst (addComments g t node)) m \<noteq> []"
  proof (cases "triviaRangeKey m \<in> deletedTriviaRanges t")
    case True
    with assms same show ?thesis by (simp add: deletedHaveComments_def)
  next
    case False
    with m have "triviaRangeKey m = triviaRangeKey node"
      and "anyExistingCommentsToResynthesize (scanTrivia g t node)"
      by (auto simp: addComments_deletedTriviaRanges split: if_splits)
    then have "getFullStart m = getFullStart node" "existingCommentsOf g t node \<noteq> []"
      by (simp_all add: triviaRangeKey_inj anyExisting_scanTrivia)
    then have "existingCommentsOf g t m \<noteq> []"
      using existingCommentsOf_cong [of t t m node g] by simp
    with same show ?thesis by simp
  qed
qed

lemma addComments_nothing:
  assumes "deletedHaveComments g t" "existingCommentsOf g t node = []"
    "count_list (slice (sourceFileText t) (getFullStart node) (getStart node)) (CHR 0x0A) \<le> 1"
  shows "snd (addComments g t node) = node"
proof (cases "isSourceFile node")
  case True
  then show ?thesis by (simp add: addComments_sourceFile)
next
  case src: False
  show ?thesis
  proof (cases "triviaRangeKey node \<in> handledTriviaRanges t")
    case True
    from assms(1,2) have "triviaRangeKey node \<notin> deletedTriviaRanges t"
      by (auto simp: deletedHaveComments_def)
    with src True show ?thesis by (simp add: addComments_handled)
  next
    case False
    with src show ?thesis
      by (simp add: addComments_fresh Let_def anyBlank_scanTrivia scanTrivia_nothing [OF assms(2,3)])
  qed
qed

lemma addComments_firstChild:
  assumes "\<not> isSourceFile node" "firstChild t = Some (ident node)"
    "triviaRangeKey node \<notin> handledTriviaRanges t"
  shows "addComments g t node =
     (t\<lparr>handledTriviaRanges := insert (triviaRangeKey node) (handledTriviaRanges t)\<rparr>,
      node\<lparr>leadingComments := leadingComments node @
        replicate
          (blankLinesIn (gapAfter (sourceFileText t) (getFullStart node)
             (existingCommentsOf g t node) (getStart node)))
          blankLineComment\<rparr>)"
  using assms
  by (simp add: addComments_fresh Let_def anyBlank_scanTrivia anyExisting_scanTrivia
      newComments_scanTrivia synthesizeAll_blank_lines)

subsection \<open>The whole walk\<close>

lemma visitNodes_append:
  "fst (visitNodes g t (xs @ ys)) = fst (visitNodes g (fst (visitNodes g t xs)) ys)"
  "snd (visitNodes g t (xs @ ys)) =
     snd (visitNodes g t xs) @ snd (visitNodes g (fst (visitNodes g t xs)) ys)"
  by (induction xs arbitrary: t) (simp_all add: split_def Let_def)

lemma visit_preorder:
  "fst (visit g t tree) = fst (visitNodes g t (preorder tree))
   \<and> preorder (snd (visit g t tree)) = snd (visitNodes g t (preorder tree))"
  "fst (visitEachChild g t trees) = fst (visitNodes g t (concat (map preorder trees)))
   \<and> concat (map preorder (snd (visitEachChild g t trees))) =
       snd (visitNodes g t (concat (map preorder trees)))"
proof (induction g t tree and g t trees rule: visit_visitEachChild.induct)
  case (1 g t node children)
  from 1 [OF refl prod.collapse] show ?case
    by (simp add: split_def Let_def)
next
  case (2 g t)
  show ?case by simp
next
  case (3 g t child rest)
  from 3(1) 3(2) [OF refl prod.collapse] show ?case
    by (simp add: split_def Let_def visitNodes_append)
qed

lemma handled_mono_visitNodes:
  "K \<in> handledTriviaRanges t \<Longrightarrow> K \<in> handledTriviaRanges (fst (visitNodes g t ns))"
  by (induction ns arbitrary: t) (simp_all add: handled_mono_addComments)

lemma frozen_visitNodes:
  "K \<in> handledTriviaRanges t \<Longrightarrow>
   K \<in> deletedTriviaRanges (fst (visitNodes g t ns)) \<longleftrightarrow> K \<in> deletedTriviaRanges t"
  by (induction ns arbitrary: t)
     (simp_all add: handled_mono_addComments frozen_addComments)

lemma range_visitNodes:
  assumes "deletedTriviaRanges t \<subseteq> handledTriviaRanges t" "i < length ns"
    "\<not> isSourceFile (ns ! i)"
  shows "n_pos (snd (visitNodes g t ns) ! i) =
           (if triviaRangeKey (ns ! i) \<in> deletedTriviaRanges (fst (visitNodes g t ns))
            then n_start (ns ! i) else n_pos (ns ! i))
         \<and> n_start (snd (visitNodes g t ns) ! i) = n_start (ns ! i)"
  using assms
proof (induction ns arbitrary: t i)
  case Nil
  then show ?case by simp
next
  case (Cons node rest)
  show ?case
  proof (cases i)
    case 0
    with Cons.prems have src: "\<not> isSourceFile node" by simp
    then have "triviaRangeKey node \<in> handledTriviaRanges (fst (addComments g t node))"
      by (simp add: addComments_handledTriviaRanges)
    then have "triviaRangeKey node \<in> deletedTriviaRanges (fst (visitNodes g t (node # rest)))
        \<longleftrightarrow> triviaRangeKey node \<in> deletedTriviaRanges (fst (addComments g t node))"
      by (simp add: frozen_visitNodes)
    with 0 show ?thesis
      using addComments_range [OF src Cons.prems(1), of g]
      by simp
  next
    case (Suc k)
    with Cons.prems show ?thesis
      using Cons.IH [OF subset_addComments [OF Cons.prems(1)], of k g node]
      by simp
  qed
qed

lemma later_visitNodes:
  assumes "j < length ns" "\<not> isSourceFile (ns ! j)"
    "triviaRangeKey (ns ! j) \<in> handledTriviaRanges t"
  shows "snd (visitNodes g t ns) ! j =
           (if triviaRangeKey (ns ! j) \<in> deletedTriviaRanges (fst (visitNodes g t ns))
            then deleteTriviaRange (ns ! j) else ns ! j)"
  using assms
proof (induction ns arbitrary: t j)
  case Nil
  then show ?case by simp
next
  case (Cons node rest)
  show ?case
  proof (cases j)
    case 0
    with Cons.prems have src: "\<not> isSourceFile node"
      and h: "triviaRangeKey node \<in> handledTriviaRanges t" by simp_all
    from h have "triviaRangeKey node \<in> deletedTriviaRanges (fst (visitNodes g t (node # rest)))
        \<longleftrightarrow> triviaRangeKey node \<in> deletedTriviaRanges t"
      by (simp add: frozen_visitNodes handled_mono_addComments frozen_addComments)
    with 0 src h show ?thesis
      by (simp add: addComments_handled)
  next
    case (Suc k)
    with Cons.prems show ?thesis
      using Cons.IH [of k "fst (addComments g t node)"]
      by (simp add: handled_mono_addComments)
  qed
qed

lemma shared_visitNodes:
  assumes "i < j" "j < length ns" "\<not> isSourceFile (ns ! i)" "\<not> isSourceFile (ns ! j)"
    "triviaRangeKey (ns ! i) = triviaRangeKey (ns ! j)"
  shows "snd (visitNodes g t ns) ! j =
           (if triviaRangeKey (ns ! j) \<in> deletedTriviaRanges (fst (visitNodes g t ns))
            then deleteTriviaRange (ns ! j) else ns ! j)"
  using assms
proof (induction ns arbitrary: t i j)
  case Nil
  then show ?case by simp
next
  case (Cons node rest)
  from Cons.prems(1) obtain k where j: "j = Suc k" by (cases j) simp_all
  show ?case
  proof (cases i)
    case 0
    with Cons.prems j have "triviaRangeKey (rest ! k) \<in> handledTriviaRanges (fst (addComments g t node))"
      by (simp add: addComments_handledTriviaRanges)
    with Cons.prems j show ?thesis
      using later_visitNodes [of k rest "fst (addComments g t node)" g]
      by simp
  next
    case (Suc i')
    with Cons.prems j show ?thesis
      using Cons.IH [of i' k "fst (addComments g t node)"]
      by simp
  qed
qed

lemma visitNodes_nothing:
  assumes "deletedHaveComments g t" "i < length ns" "existingCommentsOf g t (ns ! i) = []"
    "count_list (slice (sourceFileText t) (getFullStart (ns ! i)) (getStart (ns ! i)))
       (CHR 0x0A) \<le> 1"
  shows "snd (visitNodes g t ns) ! i = ns ! i"
  using assms
proof (induction ns arbitrary: t i)
  case Nil
  then show ?case by simp
next
  case (Cons node rest)
  show ?case
  proof (cases i)
    case 0
    with Cons.prems show ?thesis by (simp add: addComments_nothing)
  next
    case (Suc k)
    have "existingCommentsOf g (fst (addComments g t node)) (rest ! k) =
        existingCommentsOf g t (rest ! k)"
      by (rule existingCommentsOf_cong) (simp_all add: addComments_text)
    with Suc Cons.prems show ?thesis
      using Cons.IH [OF deletedHaveComments_addComments [OF Cons.prems(1)], of k node]
      by (simp add: addComments_text)
  qed
qed

lemma sourceFile_visitNodes:
  "i < length ns \<Longrightarrow> isSourceFile (ns ! i) \<Longrightarrow> snd (visitNodes g t ns) ! i = ns ! i"
proof (induction ns arbitrary: t i)
  case Nil
  then show ?case by simp
next
  case (Cons node rest)
  then show ?case by (cases i) (simp_all add: addComments_sourceFile)
qed

lemma first_visitNodes:
  assumes "i < length ns" "\<not> isSourceFile (ns ! i)"
    "triviaRangeKey (ns ! i) \<notin> handledTriviaRanges t"
    "\<forall>k<i. isSourceFile (ns ! k) \<or> triviaRangeKey (ns ! k) \<noteq> triviaRangeKey (ns ! i)"
  shows "snd (visitNodes g t ns) ! i =
           (if anyBlankLinesToAdd (scanTrivia g t (ns ! i))
            then synthesizeAll t (newComments (scanTrivia g t (ns ! i)))
                   (if anyExistingCommentsToResynthesize (scanTrivia g t (ns ! i))
                    then deleteTriviaRange (ns ! i) else ns ! i)
            else ns ! i)
       \<and> (triviaRangeKey (ns ! i) \<in> deletedTriviaRanges (fst (visitNodes g t ns))) =
           (triviaRangeKey (ns ! i) \<in> deletedTriviaRanges t
            \<or> anyBlankLinesToAdd (scanTrivia g t (ns ! i))
              \<and> anyExistingCommentsToResynthesize (scanTrivia g t (ns ! i)))"
  using assms
proof (induction ns arbitrary: t i)
  case Nil
  then show ?case by simp
next
  case (Cons node rest)
  let ?t1 = "fst (addComments g t node)"
  show ?case
  proof (cases i)
    case 0
    with Cons.prems have src: "\<not> isSourceFile node"
      and fresh: "triviaRangeKey node \<notin> handledTriviaRanges t" by simp_all
    from src have "triviaRangeKey node \<in> handledTriviaRanges ?t1"
      by (simp add: addComments_handledTriviaRanges)
    then have "(triviaRangeKey node \<in> deletedTriviaRanges (fst (visitNodes g ?t1 rest))) =
        (triviaRangeKey node \<in> deletedTriviaRanges ?t1)"
      by (rule frozen_visitNodes)
    with 0 src fresh show ?thesis
      by (auto simp: addComments_fresh Let_def addComments_deletedTriviaRanges)
  next
    case (Suc k)
    with Cons.prems have head: "isSourceFile node \<or> triviaRangeKey node \<noteq> triviaRangeKey (rest ! k)"
      by auto
    from Suc Cons.prems have k: "k < length rest" "\<not> isSourceFile (rest ! k)"
      and fresh: "triviaRangeKey (rest ! k) \<notin> handledTriviaRanges t" by simp_all
    from head fresh have fresh1: "triviaRangeKey (rest ! k) \<notin> handledTriviaRanges ?t1"
      by (auto simp: addComments_handledTriviaRanges)
    from Suc Cons.prems(4) have first: "\<forall>l<k. isSourceFile (rest ! l)
        \<or> triviaRangeKey (rest ! l) \<noteq> triviaRangeKey (rest ! k)"
      by auto
    have scan: "scanTrivia g ?t1 (rest ! k) = scanTrivia g t (rest ! k)"
      by (rule scanTrivia_cong) (simp_all add: addComments_text)
    have syn: "synthesizeAll ?t1 cs n = synthesizeAll t cs n" for cs n
      by (rule synthesizeAll_cong) (simp add: addComments_text)
    from head fresh have del: "(triviaRangeKey (rest ! k) \<in> deletedTriviaRanges ?t1) =
        (triviaRangeKey (rest ! k) \<in> deletedTriviaRanges t)"
      by (auto simp: addComments_deletedTriviaRanges)
    from Cons.IH [OF k fresh1 first] Suc show ?thesis
      by (simp add: scan syn del)
  qed
qed

lemma firstChild_not_deleted:
  assumes "isSourceFile r" "\<not> isSourceFile c" "firstChild t = Some (ident c)"
    "handledTriviaRanges t = {}" "deletedTriviaRanges t = {}"
  shows "triviaRangeKey c \<notin> deletedTriviaRanges (fst (visitNodes g t (r # c # others)))"
proof -
  have fresh: "triviaRangeKey c \<notin> handledTriviaRanges t" using assms(4) by simp
  let ?t1 = "fst (addComments g t c)"
  have "triviaRangeKey c \<in> handledTriviaRanges ?t1" "triviaRangeKey c \<notin> deletedTriviaRanges ?t1"
    using assms(5) by (simp_all add: addComments_firstChild [OF assms(2,3) fresh])
  then have "triviaRangeKey c \<notin> deletedTriviaRanges (fst (visitNodes g ?t1 others))"
    by (simp add: frozen_visitNodes)
  with assms(1) show ?thesis by (simp add: addComments_sourceFile)
qed

lemma sourceFile_region_untouched:
  assumes "isSourceFile r" "\<not> isSourceFile c" "firstChild t = Some (ident c)"
    "handledTriviaRanges t = {}" "deletedTriviaRanges t = {}"
    "sameRegion r c" "m < length (r # c # others)" "sameRegion ((r # c # others) ! m) r"
  shows "snd (visitNodes g t (r # c # others)) ! 0 = r
       \<and> getFullStart (snd (visitNodes g t (r # c # others)) ! m) = getFullStart ((r # c # others) ! m)
       \<and> getStart (snd (visitNodes g t (r # c # others)) ! m) = getStart ((r # c # others) ! m)"
proof -
  let ?ns = "r # c # others"
  have root: "snd (visitNodes g t ?ns) ! 0 = r"
    using assms(1) by (simp add: addComments_sourceFile)
  have same: "snd (visitNodes g t ?ns) ! m = ?ns ! m" if "isSourceFile (?ns ! m)"
    using assms(7) that by (rule sourceFile_visitNodes)
  have keyed: "n_pos (snd (visitNodes g t ?ns) ! m) = n_pos (?ns ! m)
      \<and> n_start (snd (visitNodes g t ?ns) ! m) = n_start (?ns ! m)" if "\<not> isSourceFile (?ns ! m)"
  proof -
    from assms(6,8) have "triviaRangeKey (?ns ! m) = triviaRangeKey c"
      by (simp add: sameRegion_def triviaRangeKey_inj)
    then have "triviaRangeKey (?ns ! m) \<notin> deletedTriviaRanges (fst (visitNodes g t ?ns))"
      using firstChild_not_deleted [OF assms(1-5), of g others] by simp
    moreover have "deletedTriviaRanges t \<subseteq> handledTriviaRanges t" using assms(5) by simp
    ultimately show ?thesis
      using range_visitNodes [OF _ assms(7) that, of t g] by simp
  qed
  show ?thesis
  proof (cases "isSourceFile (?ns ! m)")
    case True
    with root same show ?thesis by simp
  next
    case False
    with root keyed show ?thesis by (simp add: getFullStart_def getStart_def)
  qed
qed

lemma slice_Nil: "slice [] p e = []"
  by (simp add: slice_def Let_def)

text \<open>
  When the parser skipped a token in front of the first statement, the child lookup gives
  that token, and the first statement is an ordinary node for the transformer: its range
  is cut and its comments are attached again, with the blank lines between them.
\<close>

lemma skipped_token_first_statement:
  "preorder (root (preserveBlankLinesTransformer skippedComments skippedFile)) ! 1 =
     \<lparr>ident = 1, isSourceFile = False, n_pos = 12, n_start = 12, n_end = 14,
      leadingComments =
        [\<lparr>s_kind = SingleLineCommentTrivia, s_text = ''a'', s_hasTrailingNewLine = True\<rparr>,
         blankLineComment, blankLineComment,
         \<lparr>s_kind = SingleLineCommentTrivia, s_text = ''b'', s_hasTrailingNewLine = True\<rparr>]\<rparr>"
  by code_simp

section \<open>The claims\<close>

text \<open>
  Claim C1, as the code has it. The annotation sequence of a node is, for a node other
  than the first child, the gaps in front of its comments in source order, each as one
  contiguous run of as many blank-line markers as the gap has line feeds beyond the
  first, followed by its comment; then, for every node, the run of the gap after the last
  comment. For the first child the gaps in front of its comments give no marker: the
  claim as stated, for every gap, fails there.
\<close>

theorem blank_line_runs_per_gap:
  "newComments (scanTrivia g t node) =
     (if Some (ident node) \<noteq> firstChild t
      then interleave
             (gapsBefore (sourceFileText t) (getFullStart node) (existingCommentsOf g t node))
             (existingCommentsOf g t node)
      else [])
     @ replicate
         (blankLinesIn (gapAfter (sourceFileText t) (getFullStart node)
            (existingCommentsOf g t node) (getStart node)))
         BLANK_LINE"
  by (rule newComments_scanTrivia)

theorem blank_line_runs_per_gap_witness:
  "newComments (scanTrivia sharedComments (newTransformer sharedText (Some 1))
      (mkNode 2 False 1 7 8)) = [BLANK_LINE, Existing (singleLine 3 6)]"
  unfolding blank_line_runs_per_gap by code_simp

theorem every_gap_counterexample:
  "count_list (slice leadText 0 2) (CHR 0x0A) = 2
   \<and> existingCommentsOf leadComments (newTransformer leadText (Some 1)) (mkNode 1 False 0 6 7)
       = [singleLine 2 5]
   \<and> firstChild (newTransformer leadText (Some 1)) = Some (ident (mkNode 1 False 0 6 7))
   \<and> newComments (scanTrivia leadComments (newTransformer leadText (Some 1))
        (mkNode 1 False 0 6 7)) = []"
  by code_simp

text \<open>
  Claim C2, in three parts. The first two are about one walk over a tree from a new
  transformer and about the nodes for which a key is computed, which are all nodes but
  source files; the third is about the source file at the root.

  Two such nodes that have the same trivia region: after the walk the trivia span of the
  one is cleared exactly when that of the other is; the range of the earlier node starts
  at its content exactly when the key is recorded as deleted; and the later node is the
  node as it was, with its trivia range deleted exactly when the key is recorded as
  deleted, so no marker computation runs for it.

  The first such node of its region: after the walk it is what the marker computation
  makes of it. If the scan of its leading trivia finds no blank line it is the node as it
  was; otherwise it carries the synthetic comments of the scanned sequence, with its
  trivia range deleted exactly when the scan found a comment to attach again. Its key is
  recorded as deleted exactly when the scan found both a blank line and such a comment.

  The source file: when the first statement of the file is the node that the child lookup
  gives and has the trivia region of the source file, then the transform returns the
  source file node as it is and leaves the range of every node of that region in place,
  so the trivia span of each is cleared exactly when that of the source file is.
\<close>

theorem shared_region_all_or_none:
  fixes g :: LeadingCommentRanges
  defines "before \<equiv> \<lambda>tree. preorder tree"
    and "after \<equiv> \<lambda>src fc tree. preorder (snd (visit g (newTransformer src fc) tree))"
    and "deleted \<equiv> \<lambda>src fc tree. deletedTriviaRanges (fst (visit g (newTransformer src fc) tree))"
    and "scan \<equiv> \<lambda>src fc node. scanTrivia g (newTransformer src fc) node"
    and "transformed \<equiv> \<lambda>file. preorder (root (preserveBlankLinesTransformer g file))"
  shows
   "(i < j \<and> j < length (before tree)
       \<and> \<not> isSourceFile (before tree ! i) \<and> \<not> isSourceFile (before tree ! j)
       \<and> sameRegion (before tree ! i) (before tree ! j)
     \<longrightarrow> triviaCleared (after src fc tree ! i) = triviaCleared (after src fc tree ! j)
        \<and> getFullStart (after src fc tree ! i) =
            (if triviaRangeKey (before tree ! i) \<in> deleted src fc tree
             then getStart (before tree ! i) else getFullStart (before tree ! i))
        \<and> after src fc tree ! j =
            (if triviaRangeKey (before tree ! j) \<in> deleted src fc tree
             then deleteTriviaRange (before tree ! j) else before tree ! j))
    \<and> (i < length (before tree) \<and> \<not> isSourceFile (before tree ! i)
       \<and> (\<forall>k<i. isSourceFile (before tree ! k) \<or> \<not> sameRegion (before tree ! k) (before tree ! i))
     \<longrightarrow> after src fc tree ! i =
            (if anyBlankLinesToAdd (scan src fc (before tree ! i))
             then synthesizeAll (newTransformer src fc) (newComments (scan src fc (before tree ! i)))
                    (if anyExistingCommentsToResynthesize (scan src fc (before tree ! i))
                     then deleteTriviaRange (before tree ! i) else before tree ! i)
             else before tree ! i)
        \<and> (triviaRangeKey (before tree ! i) \<in> deleted src fc tree) =
            (anyBlankLinesToAdd (scan src fc (before tree ! i))
             \<and> anyExistingCommentsToResynthesize (scan src fc (before tree ! i))))
    \<and> (root file = Tree r (Tree c grandchildren # rest)
       \<and> isSourceFile r \<and> \<not> isSourceFile c \<and> firstChildNode file = Some (ident c)
       \<and> sameRegion r c
       \<and> m < length (before (root file)) \<and> sameRegion (before (root file) ! m) r
     \<longrightarrow> transformed file ! 0 = r
        \<and> getFullStart (transformed file ! m) = getFullStart (before (root file) ! m)
        \<and> triviaCleared (transformed file ! m) = triviaCleared (transformed file ! 0))"
proof (intro conjI impI)
  let ?t = "newTransformer src fc"
  let ?ns = "preorder tree"
  have sub: "deletedTriviaRanges ?t \<subseteq> handledTriviaRanges ?t"
    by (simp add: newTransformer_def)
  have walk: "after src fc tree = snd (visitNodes g ?t ?ns)"
    "deleted src fc tree = deletedTriviaRanges (fst (visitNodes g ?t ?ns))"
    by (simp_all add: after_def deleted_def visit_preorder)
  {
    assume a: "i < j \<and> j < length (before tree)
       \<and> \<not> isSourceFile (before tree ! i) \<and> \<not> isSourceFile (before tree ! j)
       \<and> sameRegion (before tree ! i) (before tree ! j)"
    then have ij: "i < j" and j: "j < length ?ns" and i: "i < length ?ns"
      and si: "\<not> isSourceFile (?ns ! i)" and sj: "\<not> isSourceFile (?ns ! j)"
      and same: "getFullStart (?ns ! i) = getFullStart (?ns ! j)"
        "getStart (?ns ! i) = getStart (?ns ! j)"
      by (simp_all add: before_def sameRegion_def)
    have key: "triviaRangeKey (?ns ! i) = triviaRangeKey (?ns ! j)"
      using same by (simp add: triviaRangeKey_inj)
    note ri = range_visitNodes [OF sub i si, of g]
    note rj = range_visitNodes [OF sub j sj, of g]
    show "triviaCleared (after src fc tree ! i) = triviaCleared (after src fc tree ! j)"
      using ri rj key same
      by (simp add: walk triviaCleared_def getFullStart_def getStart_def)
    show "getFullStart (after src fc tree ! i) =
        (if triviaRangeKey (before tree ! i) \<in> deleted src fc tree
         then getStart (before tree ! i) else getFullStart (before tree ! i))"
      using ri by (simp add: walk before_def getFullStart_def getStart_def)
    show "after src fc tree ! j =
        (if triviaRangeKey (before tree ! j) \<in> deleted src fc tree
         then deleteTriviaRange (before tree ! j) else before tree ! j)"
      using shared_visitNodes [OF ij j si sj key, of g ?t] by (simp add: walk before_def)
  }
  {
    assume a: "i < length (before tree) \<and> \<not> isSourceFile (before tree ! i)
       \<and> (\<forall>k<i. isSourceFile (before tree ! k) \<or> \<not> sameRegion (before tree ! k) (before tree ! i))"
    then have i: "i < length ?ns" and si: "\<not> isSourceFile (?ns ! i)"
      and first: "\<forall>k<i. isSourceFile (?ns ! k) \<or> triviaRangeKey (?ns ! k) \<noteq> triviaRangeKey (?ns ! i)"
      by (simp_all add: before_def sameRegion_def triviaRangeKey_inj)
    have fresh: "triviaRangeKey (?ns ! i) \<notin> handledTriviaRanges ?t"
      by (simp add: newTransformer_def)
    have none: "triviaRangeKey (?ns ! i) \<notin> deletedTriviaRanges ?t"
      by (simp add: newTransformer_def)
    note f = first_visitNodes [OF i si fresh first, of g]
    show "after src fc tree ! i =
        (if anyBlankLinesToAdd (scan src fc (before tree ! i))
         then synthesizeAll (newTransformer src fc) (newComments (scan src fc (before tree ! i)))
                (if anyExistingCommentsToResynthesize (scan src fc (before tree ! i))
                 then deleteTriviaRange (before tree ! i) else before tree ! i)
         else before tree ! i)"
      using f by (simp add: walk before_def scan_def)
    show "(triviaRangeKey (before tree ! i) \<in> deleted src fc tree) =
        (anyBlankLinesToAdd (scan src fc (before tree ! i))
         \<and> anyExistingCommentsToResynthesize (scan src fc (before tree ! i)))"
      using f none by (simp add: walk before_def scan_def)
  }
  {
    assume b: "root file = Tree r (Tree c grandchildren # rest)
       \<and> isSourceFile r \<and> \<not> isSourceFile c \<and> firstChildNode file = Some (ident c)
       \<and> sameRegion r c
       \<and> m < length (before (root file)) \<and> sameRegion (before (root file) ! m) r"
    let ?u = "newTransformer (fullText file) (firstChildNode file)"
    define others where "others = concat (map preorder grandchildren) @ concat (map preorder rest)"
    from b have nodes: "preorder (root file) = r # c # others"
      by (simp add: others_def)
    from b have r: "isSourceFile r" and c: "\<not> isSourceFile c" and rc: "sameRegion r c"
      and fc: "firstChild ?u = Some (ident c)"
      and m: "m < length (r # c # others)" and mr: "sameRegion ((r # c # others) ! m) r"
      by (simp_all add: before_def nodes newTransformer_def)
    have empty: "handledTriviaRanges ?u = {}" "deletedTriviaRanges ?u = {}"
      by (simp_all add: newTransformer_def)
    define vs where "vs = snd (visitNodes g ?u (r # c # others))"
    have u: "vs ! 0 = r" "getFullStart (vs ! m) = getFullStart ((r # c # others) ! m)"
      "getStart (vs ! m) = getStart ((r # c # others) ! m)"
      using sourceFile_region_untouched [OF r c fc empty rc m mr, of g]
      unfolding vs_def by blast+
    have result: "transformed file = (if fullText file = [] then r # c # others else vs)"
      by (simp add: transformed_def preserveBlankLinesTransformer_def Let_def visit_preorder
          nodes vs_def)
    have zero: "transformed file ! 0 = r"
      using u(1) by (simp add: result)
    have pos: "getFullStart (transformed file ! m) = getFullStart ((r # c # others) ! m)"
      and start: "getStart (transformed file ! m) = getStart ((r # c # others) ! m)"
      using u(2,3) by (simp_all add: result)
    show "transformed file ! 0 = r" by (rule zero)
    show "getFullStart (transformed file ! m) = getFullStart (before (root file) ! m)"
      using pos by (simp add: before_def nodes)
    show "triviaCleared (transformed file ! m) = triviaCleared (transformed file ! 0)"
      using pos start mr by (simp add: zero triviaCleared_def sameRegion_def)
  }
qed

theorem shared_region_all_or_none_witness:
  "preorder (snd (visit sharedComments (newTransformer sharedText (Some 1)) sharedTree)) ! 2 =
     \<lparr>ident = 2, isSourceFile = False, n_pos = 7, n_start = 7, n_end = 8,
      leadingComments =
        [blankLineComment,
         \<lparr>s_kind = SingleLineCommentTrivia, s_text = ''c'', s_hasTrailingNewLine = True\<rparr>]\<rparr>
   \<and> preorder (snd (visit sharedComments (newTransformer sharedText (Some 1)) sharedTree)) ! 3 =
       mkNode 3 False 7 7 8
   \<and> triviaRangeKey (preorder sharedTree ! 2)
       \<in> deletedTriviaRanges (fst (visit sharedComments (newTransformer sharedText (Some 1))
            sharedTree))
   \<and> triviaCleared (preorder (snd (visit sharedComments (newTransformer sharedText (Some 1))
       sharedTree)) ! 2)
   \<and> triviaCleared (preorder (snd (visit sharedComments (newTransformer sharedText (Some 1))
       sharedTree)) ! 3)
   \<and> preorder (root (preserveBlankLinesTransformer leadComments leadFile)) ! 0 =
       mkNode 0 True 0 6 7
   \<and> getFullStart (preorder (root (preserveBlankLinesTransformer leadComments leadFile)) ! 2) = 0
   \<and> \<not> triviaCleared (preorder (root (preserveBlankLinesTransformer leadComments leadFile)) ! 2)
   \<and> \<not> triviaCleared (preorder (root (preserveBlankLinesTransformer leadComments leadFile)) ! 0)"
proof -
  note claim = shared_region_all_or_none
    [where g = sharedComments and src = sharedText and fc = "Some 1" and tree = sharedTree
       and i = 2 and j = 3]
  note pair = claim [THEN conjunct1, rule_format]
  note first = claim [THEN conjunct2, THEN conjunct1, rule_format]
  have shared: "(2::nat) < 3 \<and> 3 < length (preorder sharedTree)
      \<and> \<not> isSourceFile (preorder sharedTree ! 2) \<and> \<not> isSourceFile (preorder sharedTree ! 3)
      \<and> sameRegion (preorder sharedTree ! 2) (preorder sharedTree ! 3)"
    by code_simp
  have k0: "isSourceFile (preorder sharedTree ! 0)
      \<or> \<not> sameRegion (preorder sharedTree ! 0) (preorder sharedTree ! 2)"
    and k1: "isSourceFile (preorder sharedTree ! Suc 0)
      \<or> \<not> sameRegion (preorder sharedTree ! Suc 0) (preorder sharedTree ! 2)"
    by code_simp+
  have earlier: "\<forall>k<2. isSourceFile (preorder sharedTree ! k)
      \<or> \<not> sameRegion (preorder sharedTree ! k) (preorder sharedTree ! 2)"
    using k0 k1 by (auto dest!: less_2_cases)
  have is_first: "2 < length (preorder sharedTree) \<and> \<not> isSourceFile (preorder sharedTree ! 2)
      \<and> (\<forall>k<2. isSourceFile (preorder sharedTree ! k)
            \<or> \<not> sameRegion (preorder sharedTree ! k) (preorder sharedTree ! 2))"
    using shared earlier by simp
  have scanned: "anyBlankLinesToAdd (scanTrivia sharedComments (newTransformer sharedText (Some 1))
        (preorder sharedTree ! 2))
      \<and> anyExistingCommentsToResynthesize (scanTrivia sharedComments
        (newTransformer sharedText (Some 1)) (preorder sharedTree ! 2))"
    by code_simp
  have synthesized: "synthesizeAll (newTransformer sharedText (Some 1))
      (newComments (scanTrivia sharedComments (newTransformer sharedText (Some 1))
         (preorder sharedTree ! 2)))
      (deleteTriviaRange (preorder sharedTree ! 2)) =
     \<lparr>ident = 2, isSourceFile = False, n_pos = 7, n_start = 7, n_end = 8,
      leadingComments =
        [blankLineComment,
         \<lparr>s_kind = SingleLineCommentTrivia, s_text = ''c'', s_hasTrailingNewLine = True\<rparr>]\<rparr>"
    by code_simp
  have later: "deleteTriviaRange (preorder sharedTree ! 3) = mkNode 3 False 7 7 8"
    and cleared: "triviaCleared (mkNode 3 False 7 7 8)"
    and keys: "triviaRangeKey (preorder sharedTree ! 3) = triviaRangeKey (preorder sharedTree ! 2)"
    by code_simp+
  note source = shared_region_all_or_none
    [where g = leadComments and ?file = leadFile and r = "mkNode 0 True 0 6 7"
       and c = "mkNode 1 False 0 6 7" and grandchildren = "[Tree (mkNode 2 False 0 6 7) []]"
       and rest = "[]" and m = 2, THEN conjunct2, THEN conjunct2, rule_format]
  have lead: "root leadFile =
        Tree (mkNode 0 True 0 6 7) (Tree (mkNode 1 False 0 6 7) [Tree (mkNode 2 False 0 6 7) []] # [])
      \<and> isSourceFile (mkNode 0 True 0 6 7) \<and> \<not> isSourceFile (mkNode 1 False 0 6 7)
      \<and> firstChildNode leadFile = Some (ident (mkNode 1 False 0 6 7))
      \<and> sameRegion (mkNode 0 True 0 6 7) (mkNode 1 False 0 6 7)
      \<and> 2 < length (preorder (root leadFile))
      \<and> sameRegion (preorder (root leadFile) ! 2) (mkNode 0 True 0 6 7)"
    by code_simp
  have at_start: "getFullStart (preorder (root leadFile) ! 2) = 0"
    and open_range: "\<not> triviaCleared (mkNode 0 True 0 6 7)"
    by code_simp+
  from pair [OF shared] first [OF is_first] source [OF lead]
    scanned synthesized later cleared keys at_start open_range
  show ?thesis by simp
qed

text \<open>
  Claim C3, as the code has it. When the first statement of a file is the node that the
  child lookup gives, the first child, the transform turns it into the node it was plus
  one placeholder comment per blank line of the gap after its last leading comment, which
  is its whole leading trivia when it has no comment, and nothing else: the blank lines
  in front of a leading comment are not preserved, no leading comment is attached as a
  synthetic comment, and the trivia range is left in place. The claim as stated fails
  without comments, where the blank lines before the first line are preserved.
\<close>

theorem first_child_trailing_gap_only:
  assumes "root file = Tree r (Tree c grandchildren # rest)"
    "firstChildNode file = Some (ident c)"
    "isSourceFile r" "\<not> isSourceFile c"
  shows "preorder (root (preserveBlankLinesTransformer g file)) ! 1 =
     c\<lparr>leadingComments := leadingComments c @
        replicate
          (blankLinesIn (gapAfter (fullText file) (getFullStart c)
             (existingCommentsOf g (newTransformer (fullText file) (Some (ident c))) c)
             (getStart c)))
          blankLineComment\<rparr>"
proof (cases "fullText file = []")
  case True
  then have "gapAfter (fullText file) p cs e = []" for p cs e
    by (simp add: gapAfter_def slice_Nil)
  with True assms(1) show ?thesis
    by (simp add: preserveBlankLinesTransformer_def blankLinesIn_def)
next
  case False
  let ?t = "newTransformer (fullText file) (Some (ident c))"
  have "firstChild ?t = Some (ident c)" "triviaRangeKey c \<notin> handledTriviaRanges ?t"
    "sourceFileText ?t = fullText file"
    by (simp_all add: newTransformer_def)
  with assms(4) have c: "snd (addComments g ?t c) =
      c\<lparr>leadingComments := leadingComments c @
        replicate
          (blankLinesIn (gapAfter (fullText file) (getFullStart c)
             (existingCommentsOf g ?t c) (getStart c)))
          blankLineComment\<rparr>"
    using addComments_firstChild [of c ?t g] by simp
  have "preorder (root (preserveBlankLinesTransformer g file)) ! 1 =
      snd (visitNodes g ?t (preorder (root file))) ! 1"
    using False assms(2)
    by (simp add: preserveBlankLinesTransformer_def Let_def visit_preorder)
  also have "\<dots> = snd (addComments g ?t c)"
    using assms(1,3) by (simp add: addComments_sourceFile)
  finally show ?thesis using c by simp
qed

theorem first_child_trailing_gap_only_witness:
  "preorder (root (preserveBlankLinesTransformer twoComments trailFile)) ! 1 =
     \<lparr>ident = 1, isSourceFile = False, n_pos = 0, n_start = 12, n_end = 13,
       leadingComments = [blankLineComment, blankLineComment]\<rparr>"
proof -
  have h: "root trailFile = Tree (mkNode 0 True 0 12 13) (Tree (mkNode 1 False 0 12 13) [] # [])"
    "firstChildNode trailFile = Some (ident (mkNode 1 False 0 12 13))"
    "isSourceFile (mkNode 0 True 0 12 13)" "\<not> isSourceFile (mkNode 1 False 0 12 13)"
    by code_simp+
  show ?thesis
    unfolding first_child_trailing_gap_only [OF h] by code_simp
qed

theorem first_child_no_comments_counterexample:
  "existingCommentsOf noComments (newTransformer plainText (Some 1)) (mkNode 1 False 0 3 4) = []
   \<and> preorder (root plainFile) ! 1 = mkNode 1 False 0 3 4
   \<and> firstChildNode plainFile = Some (ident (mkNode 1 False 0 3 4))
   \<and> preorder (root (preserveBlankLinesTransformer noComments plainFile)) ! 1 =
       \<lparr>ident = 1, isSourceFile = False, n_pos = 0, n_start = 3, n_end = 4,
        leadingComments = [blankLineComment, blankLineComment]\<rparr>"
  by code_simp

text \<open>
  Claim C4. When \<^verbatim>\<open>addComments\<close> computes the annotation sequence of a node and
  the sequence has a blank-line marker, then the range of the node is moved up to its
  content start and its key is added to the deleted keys if the sequence holds a comment
  of the source; if it holds none, the range stays and the deleted keys stay as they are.
\<close>

theorem trivia_cleared_iff_existing_comment:
  assumes "\<not> isSourceFile node" "triviaRangeKey node \<notin> handledTriviaRanges t"
    "BLANK_LINE \<in> set (newComments (scanTrivia g t node))"
  shows "getFullStart (snd (addComments g t node)) =
           (if list_ex isExisting (newComments (scanTrivia g t node))
            then getStart node else getFullStart node)
       \<and> deletedTriviaRanges (fst (addComments g t node)) =
           (if list_ex isExisting (newComments (scanTrivia g t node))
            then insert (triviaRangeKey node) (deletedTriviaRanges t)
            else deletedTriviaRanges t)"
  using assms
  by (simp add: addComments_fresh Let_def anyBlank_scanTrivia existing_scanTrivia
      synthesizeAll_frame getFullStart_def getStart_def deleteTriviaRange_def setTextRange_def)

theorem trivia_cleared_iff_existing_comment_witness:
  "getFullStart (snd (addComments sharedComments (newTransformer sharedText (Some 1))
      (mkNode 2 False 1 7 8))) = 7
   \<and> deletedTriviaRanges (fst (addComments sharedComments (newTransformer sharedText (Some 1))
      (mkNode 2 False 1 7 8))) = {''1:7''}
   \<and> getFullStart (snd (addComments noComments (newTransformer plainText None)
      (mkNode 1 False 0 3 4))) = 0
   \<and> deletedTriviaRanges (fst (addComments noComments (newTransformer plainText None)
      (mkNode 1 False 0 3 4))) = {}"
proof -
  have h: "\<not> isSourceFile (mkNode 2 False 1 7 8)"
    "triviaRangeKey (mkNode 2 False 1 7 8)
       \<notin> handledTriviaRanges (newTransformer sharedText (Some 1))"
    "BLANK_LINE \<in> set (newComments (scanTrivia sharedComments
       (newTransformer sharedText (Some 1)) (mkNode 2 False 1 7 8)))"
    by code_simp+
  have k: "\<not> isSourceFile (mkNode 1 False 0 3 4)"
    "triviaRangeKey (mkNode 1 False 0 3 4) \<notin> handledTriviaRanges (newTransformer plainText None)"
    "BLANK_LINE \<in> set (newComments (scanTrivia noComments
       (newTransformer plainText None) (mkNode 1 False 0 3 4)))"
    by code_simp+
  show ?thesis
    unfolding trivia_cleared_iff_existing_comment [OF h, THEN conjunct1]
      trivia_cleared_iff_existing_comment [OF h, THEN conjunct2]
      trivia_cleared_iff_existing_comment [OF k, THEN conjunct1]
      trivia_cleared_iff_existing_comment [OF k, THEN conjunct2]
    by code_simp
qed

text \<open>
  Claim C5. A comment of the source that lies in the text and is at least as long as its
  opening delimiter is attached as a synthetic comment of the same kind, with the same
  trailing-newline flag, whose text is the comment without its two leading characters
  and, for a block comment, without its two trailing characters. The block comment
  \<^verbatim>\<open>/* hello\nworld */\<close> is stored as the text between the delimiters, spaces
  included.
\<close>

theorem existing_comment_text_stripped:
  assumes "0 \<le> c_pos c" "c_pos c + 2 \<le> c_end c" "c_end c \<le> int (length (sourceFileText t))"
  shows "synthesize t node (Existing c) =
     node\<lparr>leadingComments := leadingComments node @
       [\<lparr>s_kind = c_kind c,
         s_text = stripDelimiters (c_kind c) (slice (sourceFileText t) (c_pos c) (c_end c)),
         s_hasTrailingNewLine = hasTrailingNewLine c\<rparr>]\<rparr>"
  using slice_strip_single [OF assms] slice_strip_multi [OF assms]
  by (simp add: synthesize_def addSyntheticLeadingComment_def stripDelimiters_def Let_def)

theorem existing_comment_text_stripped_witness:
  "synthesize (newTransformer blockText None) (mkNode 1 False 0 0 17)
     (Existing \<lparr>c_pos = 0, c_end = 17, c_kind = MultiLineCommentTrivia,
                hasTrailingNewLine = False\<rparr>) =
   \<lparr>ident = 1, isSourceFile = False, n_pos = 0, n_start = 0, n_end = 17,
     leadingComments =
       [\<lparr>s_kind = MultiLineCommentTrivia, s_text = '' hello\<newline>world '',
         s_hasTrailingNewLine = False\<rparr>]\<rparr>"
proof -
  have h: "0 \<le> c_pos \<lparr>c_pos = 0, c_end = 17, c_kind = MultiLineCommentTrivia,
                hasTrailingNewLine = False\<rparr>"
    "c_pos \<lparr>c_pos = 0, c_end = 17, c_kind = MultiLineCommentTrivia,
                hasTrailingNewLine = False\<rparr> + 2
      \<le> c_end \<lparr>c_pos = 0, c_end = 17, c_kind = MultiLineCommentTrivia,
                hasTrailingNewLine = False\<rparr>"
    "c_end \<lparr>c_pos = 0, c_end = 17, c_kind = MultiLineCommentTrivia,
                hasTrailingNewLine = False\<rparr>
      \<le> int (length (sourceFileText (newTransformer blockText None)))"
    by code_simp+
  show ?thesis
    unfolding existing_comment_text_stripped [OF h] by code_simp
qed

text \<open>
  Claim C6. A node of a file that has no leading comment and whose leading trivia, the
  text from its full start to its content start, has at most one line feed gets an empty
  annotation sequence, and in the transformed file it is the node it was before: no
  synthetic comment, the same range.
\<close>

theorem no_blank_lines_node_untouched:
  assumes "i < length (preorder (root file))"
    "existingCommentsOf g (newTransformer (fullText file) (firstChildNode file))
       (preorder (root file) ! i) = []"
    "count_list (slice (fullText file) (getFullStart (preorder (root file) ! i))
       (getStart (preorder (root file) ! i))) (CHR 0x0A) \<le> 1"
  shows "newComments (scanTrivia g (newTransformer (fullText file) (firstChildNode file))
           (preorder (root file) ! i)) = []
       \<and> preorder (root (preserveBlankLinesTransformer g file)) ! i = preorder (root file) ! i"
proof -
  let ?t = "newTransformer (fullText file) (firstChildNode file)"
  let ?n = "preorder (root file) ! i"
  have text_eq: "sourceFileText ?t = fullText file" by (simp add: newTransformer_def)
  have inv: "deletedHaveComments g ?t"
    by (simp add: deletedHaveComments_def newTransformer_def)
  from assms(3) have cnt: "count_list (slice (sourceFileText ?t)
      (getFullStart ?n) (getStart ?n)) (CHR 0x0A) \<le> 1"
    by (simp only: text_eq)
  have "newComments (scanTrivia g ?t ?n) = []"
    using assms(2) cnt by (rule scanTrivia_nothing)
  moreover have "snd (visitNodes g ?t (preorder (root file))) ! i = ?n"
    using inv assms(1,2) cnt by (rule visitNodes_nothing)
  ultimately show ?thesis
    by (simp add: preserveBlankLinesTransformer_def Let_def visit_preorder)
qed

theorem no_blank_lines_node_untouched_witness:
  "newComments (scanTrivia sharedComments (newTransformer sharedText (Some 1))
      (mkNode 1 False 0 0 1)) = []
   \<and> preorder (root sharedFile) ! 1 = mkNode 1 False 0 0 1
   \<and> preorder (root (preserveBlankLinesTransformer sharedComments sharedFile)) ! 1
       = mkNode 1 False 0 0 1"
proof -
  have h: "1 < length (preorder (root sharedFile))"
    "existingCommentsOf sharedComments
       (newTransformer (fullText sharedFile) (firstChildNode sharedFile))
       (preorder (root sharedFile) ! 1) = []"
    "count_list (slice (fullText sharedFile) (getFullStart (preorder (root sharedFile) ! 1))
       (getStart (preorder (root sharedFile) ! 1))) (CHR 0x0A) \<le> 1"
    by code_simp+
  have e: "preorder (root sharedFile) ! 1 = mkNode 1 False 0 0 1"
    "newTransformer (fullText sharedFile) (firstChildNode sharedFile) =
       newTransformer sharedText (Some 1)"
    by code_simp+
  from no_blank_lines_node_untouched [OF h] e show ?thesis by simp
qed

text \<open>
  Claim C7, as the code has it. When the node is the first child, the loop over its
  leading comments counts no gap at all, neither the gap before the first comment nor a
  gap between two comments: it only moves the previous region end to the end of the last
  comment. The annotation sequence of the first child is the run of the gap after the
  last comment and nothing more. The claim as stated, that the gaps between comments are
  still counted, fails.
\<close>

theorem first_child_comments_skipped:
  assumes "firstChild t = Some (ident node)"
  shows "eachExistingComment t node cs sc =
           sc\<lparr>previousRegionEnd := regionEndAfter (previousRegionEnd sc) cs\<rparr>
       \<and> newComments (scanTrivia g t node) =
           replicate
             (blankLinesIn (gapAfter (sourceFileText t) (getFullStart node)
                (existingCommentsOf g t node) (getStart node)))
             BLANK_LINE"
  using assms by (simp add: eachExistingComment_firstChild newComments_scanTrivia)

theorem first_child_comments_skipped_witness:
  "eachExistingComment (newTransformer trailText (Some 1)) (mkNode 1 False 0 12 13)
     [singleLine 0 3, singleLine 6 9]
     \<lparr>newComments = [], anyBlankLinesToAdd = False,
      anyExistingCommentsToResynthesize = False, previousRegionEnd = 0\<rparr>
   = \<lparr>newComments = [], anyBlankLinesToAdd = False,
      anyExistingCommentsToResynthesize = False, previousRegionEnd = 9\<rparr>
   \<and> newComments (scanTrivia twoComments (newTransformer trailText (Some 1))
        (mkNode 1 False 0 12 13)) = [BLANK_LINE, BLANK_LINE]"
proof -
  have h: "firstChild (newTransformer trailText (Some 1)) = Some (ident (mkNode 1 False 0 12 13))"
    by code_simp
  show ?thesis
    unfolding first_child_comments_skipped [OF h, THEN conjunct1]
      first_child_comments_skipped [OF h, THEN conjunct2]
    by code_simp
qed

theorem between_comments_counterexample:
  "existingCommentsOf twoComments (newTransformer betweenText (Some 1)) (mkNode 1 False 0 10 11)
     = [singleLine 0 3, singleLine 6 9]
   \<and> firstChild (newTransformer betweenText (Some 1)) = Some (ident (mkNode 1 False 0 10 11))
   \<and> count_list (slice betweenText 3 6) (CHR 0x0A) = 3
   \<and> newComments (scanTrivia twoComments (newTransformer betweenText (Some 1))
        (mkNode 1 False 0 10 11)) = []"
  by code_simp

text \<open>
  Claim C8, as the code has it. The placeholder is the fixed string made of the 25
  characters \<^verbatim>\<open>__BLANK_LINE_PLACEHOLDER_\<close>, 32 characters that are capital letters
  or digits, and two underscores: 59 characters, not 48.
\<close>

theorem placeholder_shape:
  "take 25 BLANK_LINE_PLACEHOLDER_COMMENT = ''__BLANK_LINE_PLACEHOLDER_''
   \<and> list_all isUpperAlnum (take 32 (drop 25 BLANK_LINE_PLACEHOLDER_COMMENT))
   \<and> drop 57 BLANK_LINE_PLACEHOLDER_COMMENT = ''__''
   \<and> length BLANK_LINE_PLACEHOLDER_COMMENT = 59"
  by code_simp

theorem placeholder_length_counterexample:
  "length BLANK_LINE_PLACEHOLDER_COMMENT \<noteq> 48
   \<and> length (take 32 (drop 25 BLANK_LINE_PLACEHOLDER_COMMENT)) \<noteq> 48"
  by code_simp

text \<open>
  Claim C9. For a file whose full text is empty the transform gives back the file it was
  given: no node is visited and no synthetic comment is attached.
\<close>

theorem empty_text_returns_file:
  assumes "fullText file = []"
  shows "preserveBlankLinesTransformer g file = file"
  using assms by (simp add: preserveBlankLinesTransformer_def)

theorem empty_text_returns_file_witness:
  "preserveBlankLinesTransformer noComments
     \<lparr>fullText = [], root = Tree (mkNode 0 True 0 0 0) [], firstChildNode = None\<rparr>
   = \<lparr>fullText = [], root = Tree (mkNode 0 True 0 0 0) [], firstChildNode = None\<rparr>"
proof -
  have h: "fullText \<lparr>fullText = [], root = Tree (mkNode 0 True 0 0 0) [], firstChildNode = None\<rparr> = []"
    by simp
  show ?thesis by (rule empty_text_returns_file [OF h])
qed

text \<open>
  Claim C10. The blank-line count of a string is the number of its line feeds minus one,
  floored at zero. It depends on the line feeds alone: deleting every other character
  leaves the count as it is, and so does rewriting LF line ends to CRLF line ends.
\<close>

theorem countBlankLines_newlines_only:
  "countBlankLines str = max 0 (int (count_list str (CHR 0x0A)) - 1)
   \<and> countBlankLines (filter (\<lambda>c. c = CHR 0x0A) str) = countBlankLines str
   \<and> countBlankLines (toCRLF str) = countBlankLines str"
  by (simp add: countBlankLines_def countNewLines_acc count_list_filter_eq count_list_toCRLF)

end
